theory Spec2Isabelle
  imports Complex_Main "HOL-Library.AList" "HOL-Library.Log_Nat"
begin

section \<open>Conventions of the embedding\<close>

text \<open>
  The retrieval and ranking engine of TalentGrid is written in Python.  Its functions are
  embedded as HOL functions under the following conventions.

  \<^item> Python \<^verbatim>\<open>float\<close> scores are exact reals, and \<^verbatim>\<open>math.log\<close> is \<^term>\<open>ln\<close>.  The aggregation of
    the chunk scores of a document, the one step where a property of the scores depends on
    the rounding, is embedded a second time in IEEE 754 double precision: a double is the
    real it stands for, and every operation rounds its exact result to the nearest double,
    ties to even.  Infinities, NaN and overflow are outside the model.
  \<^item> Python \<^verbatim>\<open>str\<close> is \<^typ>\<open>string\<close>, a \<^typ>\<open>char\<close> being a Unicode code point below 256
    (ASCII and Latin-1); \<^verbatim>\<open>str.lower\<close>, \<^verbatim>\<open>str.split\<close>, \<^verbatim>\<open>str.strip\<close> and the regular
    expression class \<^verbatim>\<open>\w\<close> are modelled on all 256 of them.  Text with a code point from
    256 on has no counterpart in \<^typ>\<open>string\<close>.
  \<^item> A \<^verbatim>\<open>dict\<close> is an association list in insertion order; assignment to a key is
    \<^const>\<open>AList.update\<close>, which keeps the position of a key that is already present, as
    Python does.
  \<^item> \<^verbatim>\<open>sorted(xs, key=f, reverse=True)\<close> is stable and descending: \<^const>\<open>sort_key\<close> on the
    negated key.
  \<^item> The external collaborators (embedding service, vector index, re-ranking service,
    the UUID generator) are parameters of the functions that call them.
\<close>

section \<open>Strings\<close>

definition ascii_upper :: string where
  "ascii_upper = ''ABCDEFGHIJKLMNOPQRSTUVWXYZ''"

definition ascii_lower :: string where
  "ascii_lower = ''abcdefghijklmnopqrstuvwxyz''"

definition ascii_digits :: string where
  "ascii_digits = ''0123456789''"

text \<open>The upper-case letters of Latin-1 (0xC0 to 0xDE without the multiplication sign 0xD7)
  and, position by position, their lower-case letters (0xE0 to 0xFE without the division
  sign 0xF7).\<close>

definition latin1_upper :: string where
  "latin1_upper =
     [CHR 0xC0, CHR 0xC1, CHR 0xC2, CHR 0xC3, CHR 0xC4, CHR 0xC5, CHR 0xC6, CHR 0xC7,
      CHR 0xC8, CHR 0xC9, CHR 0xCA, CHR 0xCB, CHR 0xCC, CHR 0xCD, CHR 0xCE, CHR 0xCF,
      CHR 0xD0, CHR 0xD1, CHR 0xD2, CHR 0xD3, CHR 0xD4, CHR 0xD5, CHR 0xD6, CHR 0xD8,
      CHR 0xD9, CHR 0xDA, CHR 0xDB, CHR 0xDC, CHR 0xDD, CHR 0xDE]"

definition latin1_lower :: string where
  "latin1_lower =
     [CHR 0xE0, CHR 0xE1, CHR 0xE2, CHR 0xE3, CHR 0xE4, CHR 0xE5, CHR 0xE6, CHR 0xE7,
      CHR 0xE8, CHR 0xE9, CHR 0xEA, CHR 0xEB, CHR 0xEC, CHR 0xED, CHR 0xEE, CHR 0xEF,
      CHR 0xF0, CHR 0xF1, CHR 0xF2, CHR 0xF3, CHR 0xF4, CHR 0xF5, CHR 0xF6, CHR 0xF8,
      CHR 0xF9, CHR 0xFA, CHR 0xFB, CHR 0xFC, CHR 0xFD, CHR 0xFE]"

text \<open>The other code points from 128 to 255 that Python counts as alphanumeric: the ordinal
  indicators, the superscript digits, the micro sign, the vulgar fractions, the sharp s
  and the y with diaeresis.\<close>

definition latin1_other_word :: string where
  "latin1_other_word =
     [CHR 0xAA, CHR 0xB2, CHR 0xB3, CHR 0xB5, CHR 0xB9, CHR 0xBA, CHR 0xBC, CHR 0xBD,
      CHR 0xBE, CHR 0xDF, CHR 0xFF]"

text \<open>\<^verbatim>\<open>str.lower()\<close>, character by character.\<close>

definition lower_char :: "char \<Rightarrow> char" where
  "lower_char c =
     (case map_of (zip (ascii_upper @ latin1_upper) (ascii_lower @ latin1_lower)) c of
        Some d \<Rightarrow> d
      | None \<Rightarrow> c)"

definition lower :: "string \<Rightarrow> string" where
  "lower s = map lower_char s"

text \<open>The characters \<^verbatim>\<open>str.split()\<close> without argument splits at, and \<^verbatim>\<open>str.strip()\<close>
  removes: space, tab, line feed, vertical tab, form feed, carriage return, the four
  separators 0x1C to 0x1F, next line 0x85 and the no-break space 0xA0.\<close>

definition is_space :: "char \<Rightarrow> bool" where
  "is_space c = (c \<in> set [CHR '' '', CHR 0x09, CHR 0x0A, CHR 0x0B, CHR 0x0C, CHR 0x0D,
                           CHR 0x1C, CHR 0x1D, CHR 0x1E, CHR 0x1F, CHR 0x85, CHR 0xA0])"

text \<open>The characters matched by \<^verbatim>\<open>\w\<close>: letters, digits, the underscore, and the
  alphanumeric code points of Latin-1.\<close>

definition is_word_char :: "char \<Rightarrow> bool" where
  "is_word_char c =
     (c \<in> set (ascii_upper @ ascii_lower @ ascii_digits @ ''_''
               @ latin1_upper @ latin1_lower @ latin1_other_word))"

text \<open>The maximal runs of characters that are not separators, left to right; \<open>cur\<close> is the
  run being read, reversed.\<close>

fun runs :: "(char \<Rightarrow> bool) \<Rightarrow> string \<Rightarrow> string \<Rightarrow> string list" where
  "runs sep cur [] = (if cur = [] then [] else [rev cur])"
| "runs sep cur (c # cs) =
     (if sep c then (if cur = [] then runs sep [] cs else rev cur # runs sep [] cs)
      else runs sep (c # cur) cs)"

text \<open>\<^verbatim>\<open>s.split()\<close>\<close>

definition split_ws :: "string \<Rightarrow> string list" where
  "split_ws s = runs is_space [] s"

text \<open>\<^verbatim>\<open>re.findall(r"\w+", s)\<close>\<close>

definition findall_words :: "string \<Rightarrow> string list" where
  "findall_words s = runs (\<lambda>c. \<not> is_word_char c) [] s"

text \<open>\<^verbatim>\<open>sub in s\<close>\<close>

fun is_substring :: "string \<Rightarrow> string \<Rightarrow> bool" where
  "is_substring sub [] = (sub = [])"
| "is_substring sub (c # cs) = (take (length sub) (c # cs) = sub \<or> is_substring sub cs)"

text \<open>\<^verbatim>\<open>s.count(sub)\<close>: the number of non-overlapping occurrences, scanning from the left.
  \<open>skip\<close> is the number of characters still covered by the occurrence just counted.\<close>

fun count_from :: "string \<Rightarrow> nat \<Rightarrow> string \<Rightarrow> nat" where
  "count_from sub skip [] = 0"
| "count_from sub skip (c # cs) =
     (if 0 < skip then count_from sub (skip - 1) cs
      else if take (length sub) (c # cs) = sub then 1 + count_from sub (length sub - 1) cs
      else count_from sub 0 cs)"

definition str_count :: "string \<Rightarrow> string \<Rightarrow> nat" where
  "str_count s sub = (if sub = [] then length s + 1 else count_from sub 0 s)"

text \<open>\<^verbatim>\<open>sep.join(xs)\<close>\<close>

fun join :: "string \<Rightarrow> string list \<Rightarrow> string" where
  "join sep [] = []"
| "join sep [x] = x"
| "join sep (x # y # ys) = x @ sep @ join sep (y # ys)"

section \<open>HybridSearch: vocabulary tables\<close>

definition STOP_WORDS :: "string list" where
  "STOP_WORDS =
    [''a'', ''an'', ''the'', ''and'', ''or'', ''but'', ''in'', ''on'', ''at'', ''to'', ''for'',
     ''of'', ''with'', ''by'', ''from'', ''as'', ''is'', ''was'', ''are'', ''were'', ''been'',
     ''be'', ''have'', ''has'', ''had'', ''do'', ''does'', ''did'', ''will'', ''would'',
     ''could'', ''should'', ''may'', ''might'', ''must'', ''shall'', ''can'', ''need'',
     ''that'', ''this'', ''these'', ''those'', ''i'', ''you'', ''he'', ''she'', ''it'',
     ''we'', ''they'', ''what'', ''which'', ''who'', ''whom'', ''where'', ''when'', ''why'',
     ''how'', ''all'', ''each'', ''every'', ''both'', ''few'', ''more'', ''most'', ''other'',
     ''some'', ''such'', ''no'', ''nor'', ''not'', ''only'', ''own'', ''same'', ''so'',
     ''than'', ''too'', ''very'', ''just'', ''also'', ''now'', ''skills'', ''experience'',
     ''years'', ''work'', ''working'', ''job'', ''position'', ''role'', ''level'',
     ''looking'', ''seeking'', ''required'', ''requirements'', ''preferred'']"

definition TECH_SKILLS :: "string list" where
  "TECH_SKILLS =
    [''flutter'', ''dart'', ''react'', ''angular'', ''vue'', ''javascript'', ''typescript'',
     ''python'', ''java'', ''kotlin'', ''swift'', ''go'', ''rust'', ''ruby'', ''php'',
     ''node'', ''nodejs'', ''express'', ''django'', ''flask'', ''spring'', ''rails'',
     ''sql'', ''mysql'', ''postgresql'', ''mongodb'', ''redis'', ''elasticsearch'',
     ''aws'', ''azure'', ''gcp'', ''docker'', ''kubernetes'', ''terraform'',
     ''react native'', ''ios'', ''android'', ''mobile'', ''frontend'', ''backend'',
     ''fullstack'', ''devops'', ''mlops'', ''machine learning'', ''ml'', ''ai'',
     ''tensorflow'', ''pytorch'', ''pandas'', ''numpy'', ''scikit'',
     ''html'', ''css'', ''sass'', ''tailwind'', ''bootstrap'',
     ''git'', ''agile'', ''scrum'', ''jira'', ''figma'', ''sketch'']"

definition SYNONYMS :: "(string \<times> string list) list" where
  "SYNONYMS =
    [(''react'', [''reactjs'', ''react.js'']),
     (''reactjs'', [''react'', ''react.js'']),
     (''vue'', [''vuejs'', ''vue.js'']),
     (''vuejs'', [''vue'', ''vue.js'']),
     (''angular'', [''angularjs'', ''angular.js'']),
     (''node'', [''nodejs'', ''node.js'']),
     (''nodejs'', [''node'', ''node.js'']),
     (''javascript'', [''js'', ''ecmascript'']),
     (''js'', [''javascript'', ''ecmascript'']),
     (''typescript'', [''ts'']),
     (''ts'', [''typescript'']),
     (''python'', [''py'']),
     (''py'', [''python'']),
     (''golang'', [''go'']),
     (''go'', [''golang'']),
     (''kubernetes'', [''k8s'']),
     (''k8s'', [''kubernetes'']),
     (''postgresql'', [''postgres'', ''psql'']),
     (''postgres'', [''postgresql'', ''psql'']),
     (''mongodb'', [''mongo'']),
     (''mongo'', [''mongodb'']),
     (''elasticsearch'', [''elastic'', ''es'']),
     (''machine learning'', [''ml'', ''machinelearning'']),
     (''ml'', [''machine learning'', ''machinelearning'']),
     (''artificial intelligence'', [''ai'']),
     (''ai'', [''artificial intelligence'']),
     (''frontend'', [''front-end'', ''front end'']),
     (''backend'', [''back-end'', ''back end'']),
     (''fullstack'', [''full-stack'', ''full stack'']),
     (''devops'', [''dev-ops'', ''dev ops'']),
     (''react native'', [''reactnative'', ''rn'']),
     (''nextjs'', [''next.js'', ''next'']),
     (''nuxtjs'', [''nuxt.js'', ''nuxt''])]"

definition TITLE_PATTERNS :: "(string \<times> string list) list" where
  "TITLE_PATTERNS =
    [(''developer'', [''engineer'', ''dev'', ''programmer'', ''coder'']),
     (''engineer'', [''developer'', ''dev'']),
     (''senior'', [''sr'', ''sr.'', ''lead'', ''principal'']),
     (''junior'', [''jr'', ''jr.'', ''entry'']),
     (''frontend'', [''front-end'', ''front end'', ''ui'']),
     (''backend'', [''back-end'', ''back end'', ''server'']),
     (''fullstack'', [''full-stack'', ''full stack'']),
     (''data scientist'', [''data science'', ''ml engineer'']),
     (''devops'', [''sre'', ''site reliability'', ''platform engineer'']),
     (''mobile'', [''ios'', ''android'', ''app developer''])]"

definition title_keywords :: "string list" where
  "title_keywords = [''developer'', ''engineer'', ''designer'', ''manager'', ''lead'',
                     ''senior'', ''junior'', ''architect'', ''analyst'', ''scientist'']"

section \<open>HybridSearch\<close>

text \<open>\<^verbatim>\<open>HybridSearch._is_skill_query\<close>\<close>

definition is_skill_query :: "string \<Rightarrow> bool" where
  "is_skill_query query =
     (let words = filter (\<lambda>w. w \<notin> set STOP_WORDS) (split_ws (lower query))
      in if length words \<le> 2 then True
         else list_ex (\<lambda>word. word \<in> set TECH_SKILLS) words)"

text \<open>\<^verbatim>\<open>HybridSearch._expand_with_synonyms\<close>.  The source collects the words in a \<^verbatim>\<open>set\<close>
  and returns \<^verbatim>\<open>list(expanded)\<close>, whose order Python leaves open; the only use of the
  result is a sum over its elements.\<close>

definition expand_with_synonyms :: "string list \<Rightarrow> string list" where
  "expand_with_synonyms keywords =
     remdups (keywords @ concat (map (\<lambda>word. case map_of SYNONYMS (lower word) of
                                                  Some syns \<Rightarrow> syns | None \<Rightarrow> []) keywords))"

text \<open>\<^verbatim>\<open>HybridSearch._get_title_boost\<close>: one round of the loop over the title keywords.\<close>

definition keyword_boost :: "string \<Rightarrow> string \<Rightarrow> real \<Rightarrow> string \<Rightarrow> real" where
  "keyword_boost query_lower text_lower boost keyword =
     (if is_substring keyword query_lower then
        (let boost = (if is_substring keyword text_lower then boost + 0.15 else boost)
         in case map_of TITLE_PATTERNS keyword of
              Some syns \<Rightarrow>
                if list_ex (\<lambda>synonym. is_substring synonym text_lower) syns
                then boost + 0.1 else boost
            | None \<Rightarrow> boost)
      else boost)"

text \<open>The loop over \<^verbatim>\<open>enumerate(query_words)\<close>: a tech skill followed by a title keyword.\<close>

fun tech_title_boost :: "string \<Rightarrow> real \<Rightarrow> string list \<Rightarrow> real" where
  "tech_title_boost text_lower boost [] = boost"
| "tech_title_boost text_lower boost [word] = boost"
| "tech_title_boost text_lower boost (word # nxt # rest) =
     tech_title_boost text_lower
       (if word \<in> set TECH_SKILLS \<and> nxt \<in> set title_keywords
           \<and> is_substring word (take 200 text_lower)
        then boost + 0.2 else boost)
       (nxt # rest)"

definition get_title_boost :: "string \<Rightarrow> string \<Rightarrow> real" where
  "get_title_boost query text =
     (let query_lower = lower query;
          text_lower = lower text;
          boost = foldl (keyword_boost query_lower text_lower) 1.0 title_keywords;
          boost = tech_title_boost text_lower boost (split_ws query_lower)
      in min boost 1.5)"

text \<open>\<^verbatim>\<open>HybridSearch.bm25_score\<close>: the keywords of the query.\<close>

definition extract_keywords :: "string \<Rightarrow> string list" where
  "extract_keywords query =
     (let all_words = findall_words (lower query);
          keywords = filter (\<lambda>w. w \<notin> set STOP_WORDS \<and> 2 \<le> length w) all_words
      in if keywords = [] then filter (\<lambda>w. 3 \<le> length w) all_words else keywords)"

text \<open>The contribution of one expanded keyword to the score of a text.\<close>

definition word_score :: "string list \<Rightarrow> string \<Rightarrow> string \<Rightarrow> real" where
  "word_score keywords text_lower word =
     (let count = str_count text_lower word
      in if 0 < count then
           (let base = 1 + ln (1 + real count);
                base = (if word \<in> set TECH_SKILLS then base * 3 else base);
                base = (if word \<notin> set keywords then base * 0.8 else base)
            in base)
         else 0)"

text \<open>The body of the loop over \<^verbatim>\<open>documents.items()\<close>: the score of one text before
  normalisation.\<close>

definition raw_score :: "string \<Rightarrow> string \<Rightarrow> real" where
  "raw_score query text =
     (let keywords = extract_keywords query;
          expanded_keywords = expand_with_synonyms keywords;
          text_lower = lower text;
          score = sum_list (map (word_score keywords text_lower) expanded_keywords);
          score = (if is_substring (lower query) text_lower
                   then score + real (length keywords * 2) else score)
      in score * get_title_boost query text)"

definition raw_scores :: "string \<Rightarrow> (string \<times> string) list \<Rightarrow> (string \<times> real) list" where
  "raw_scores query documents = map (\<lambda>(doc_id, text). (doc_id, raw_score query text)) documents"

text \<open>\<^verbatim>\<open>max_score\<close> starts at 0.001 and is raised by every score of the batch.\<close>

definition batch_max :: "(string \<times> real) list \<Rightarrow> real" where
  "batch_max scores = foldl (\<lambda>max_score (doc_id, s). max max_score s) 0.001 scores"

definition bm25_score :: "string \<Rightarrow> (string \<times> string) list \<Rightarrow> (string \<times> real) list" where
  "bm25_score query documents =
     (let scores = raw_scores query documents;
          max_score = batch_max scores
      in if 0 < max_score then map (\<lambda>(doc_id, s). (doc_id, s / max_score)) scores
         else scores)"

text \<open>The vector index: a query returns hits, each with its id, text and distance.\<close>

record hit =
  hit_id :: string
  hit_document :: string
  hit_distance :: real

datatype where_clause = Gte int | Lte int | And "where_clause list"

type_synonym 'e vector_store = "'e \<Rightarrow> int \<Rightarrow> where_clause option \<Rightarrow> hit list"

record 'e hybrid_search =
  store :: "'e vector_store"
  original_query :: string

datatype error = ZeroDivisionError | KeyError | IndexError | ApiError

text \<open>\<^verbatim>\<open>d.get(k, 0)\<close>\<close>

definition get_or_zero :: "(string \<times> real) list \<Rightarrow> string \<Rightarrow> real" where
  "get_or_zero d k = (case map_of d k of Some v \<Rightarrow> v | None \<Rightarrow> 0)"

text \<open>The loop of \<^verbatim>\<open>search\<close> over the hits fills \<^verbatim>\<open>docs\<close> and \<^verbatim>\<open>vector_scores\<close>; the
  division raises at distance \<open>-1\<close>.\<close>

fun collect_hits :: "hit list \<Rightarrow> (string \<times> string) list \<Rightarrow> (string \<times> real) list
    \<Rightarrow> error + ((string \<times> string) list \<times> (string \<times> real) list)" where
  "collect_hits [] docs vector_scores = Inr (docs, vector_scores)"
| "collect_hits (h # hs) docs vector_scores =
     (if 1 + hit_distance h = 0 then Inl ZeroDivisionError
      else collect_hits hs (AList.update (hit_id h) (hit_document h) docs)
             (AList.update (hit_id h) (1 / (1 + hit_distance h)) vector_scores))"

text \<open>The weights chosen in \<^verbatim>\<open>search\<close>: (semantic weight, keyword weight).\<close>

definition weights :: "string \<Rightarrow> real \<times> real" where
  "weights query = (if is_skill_query query then (0.2, 0.8) else (0.6, 0.4))"

text \<open>\<^verbatim>\<open>sorted(items, key=lambda x: x[1], reverse=True)\<close>\<close>

definition sort_desc :: "('a \<Rightarrow> real) \<Rightarrow> 'a list \<Rightarrow> 'a list" where
  "sort_desc key xs = sort_key (\<lambda>x. - key x) xs"

text \<open>\<^verbatim>\<open>HybridSearch.search\<close>\<close>

definition search :: "'e hybrid_search \<Rightarrow> 'e \<Rightarrow> where_clause option \<Rightarrow> int
    \<Rightarrow> error + ((string \<times> real) list \<times> (string \<times> string) list)" where
  "search self query filters k =
     (let vector_results = store self query k filters
      in if vector_results = [] then Inr ([], [])
         else case collect_hits vector_results [] [] of
           Inl e \<Rightarrow> Inl e
         | Inr (docs, vector_scores) \<Rightarrow>
             (let bm25_scores = bm25_score (original_query self) docs;
                  (semantic_weight, keyword_weight) = weights (original_query self);
                  final_scores = map (\<lambda>(doc_id, text).
                      (doc_id, semantic_weight * get_or_zero vector_scores doc_id
                               + keyword_weight * get_or_zero bm25_scores doc_id)) docs
              in Inr (sort_desc snd final_scores, docs)))"

section \<open>QueryParser\<close>

text \<open>The filters sent by the caller.  The source receives a \<^verbatim>\<open>dict\<close> and reads four keys
  with \<^verbatim>\<open>get\<close>; \<open>None\<close> stands for the falsy arguments \<^verbatim>\<open>None\<close> and \<^verbatim>\<open>{}\<close>.\<close>

record ui_filters =
  min_experience :: "int option"
  max_experience :: "int option"
  languages :: "string list option"
  location :: "string option"

text \<open>\<^verbatim>\<open>s.strip()\<close>\<close>

definition strip :: "string \<Rightarrow> string" where
  "strip s = rev (dropWhile is_space (rev (dropWhile is_space s)))"

text \<open>\<^verbatim>\<open>QueryParser._build_filters\<close>\<close>

definition build_filters :: "ui_filters option \<Rightarrow> where_clause option" where
  "build_filters ui =
     (case ui of
        None \<Rightarrow> None
      | Some f \<Rightarrow>
          (let conditions =
                 (case min_experience f of Some min_exp \<Rightarrow> [Gte min_exp] | None \<Rightarrow> [])
               @ (case max_experience f of Some max_exp \<Rightarrow> [Lte max_exp] | None \<Rightarrow> [])
           in case conditions of
                [] \<Rightarrow> None
              | [c] \<Rightarrow> Some c
              | _ \<Rightarrow> Some (And conditions)))"

text \<open>\<^verbatim>\<open>QueryParser.parse\<close>\<close>

definition parse :: "string \<Rightarrow> ui_filters option \<Rightarrow> string \<times> where_clause option" where
  "parse query ui = (strip query, build_filters ui)"

section \<open>Retriever\<close>

record 'e retriever =
  embedder :: "string \<Rightarrow> 'e"
  hybrid :: "'e hybrid_search"

text \<open>The per-document entry of \<^verbatim>\<open>results\<close>.\<close>

record cv_result =
  cv_score :: real
  chunks :: "string list"
  chunk_scores :: "real list"

text \<open>A candidate as \<^verbatim>\<open>retrieve\<close> returns it and \<^verbatim>\<open>CrossEncoder.rank\<close> receives it: a \<^verbatim>\<open>dict\<close>
  with the keys \<^verbatim>\<open>id\<close>, \<^verbatim>\<open>text\<close>, \<^verbatim>\<open>retrieval_score\<close> and, once ranked, \<^verbatim>\<open>score\<close>.\<close>

record candidate =
  cand_id :: string
  cand_text :: string
  retrieval_score :: "real option"
  score :: "real option"

text \<open>\<^verbatim>\<open>bool(ui_filters and (ui_filters.get("languages") or ui_filters.get("location")))\<close>\<close>

definition has_sql_filters :: "ui_filters option \<Rightarrow> bool" where
  "has_sql_filters ui =
     (case ui of
        None \<Rightarrow> False
      | Some f \<Rightarrow> (case languages f of Some ls \<Rightarrow> ls \<noteq> [] | None \<Rightarrow> False)
                \<or> (case location f of Some l \<Rightarrow> l \<noteq> [] | None \<Rightarrow> False))"

definition fetch_k :: "ui_filters option \<Rightarrow> int \<Rightarrow> int" where
  "fetch_k ui top_k = (if has_sql_filters ui then max (top_k * 3) 60 else max top_k 20)"

definition fallback_k :: "int \<Rightarrow> int" where
  "fallback_k top_k = max top_k 20"

text \<open>\<^verbatim>\<open>doc_id.split("_")[0]\<close>\<close>

definition cv_id_of :: "string \<Rightarrow> string" where
  "cv_id_of doc_id = takeWhile (\<lambda>c. c \<noteq> CHR ''_'') doc_id"

text \<open>The grouping loop over \<^verbatim>\<open>ranked\<close>; \<^verbatim>\<open>docs[doc_id]\<close> raises on a missing key.\<close>

fun group_by_cv :: "(string \<times> real) list \<Rightarrow> (string \<times> string) list
    \<Rightarrow> (string \<times> cv_result) list \<Rightarrow> error + (string \<times> cv_result) list" where
  "group_by_cv [] docs results = Inr results"
| "group_by_cv ((doc_id, s) # ranked) docs results =
     (let cv_id = cv_id_of doc_id;
          entry = (case map_of results cv_id of
                     Some r \<Rightarrow> r
                   | None \<Rightarrow> \<lparr>cv_score = 0, chunks = [], chunk_scores = []\<rparr>)
      in case map_of docs doc_id of
           None \<Rightarrow> Inl KeyError
         | Some text \<Rightarrow>
             group_by_cv ranked docs
               (AList.update cv_id
                  (entry\<lparr>chunk_scores := chunk_scores entry @ [s],
                         chunks := chunks entry @ [text]\<rparr>)
                  results))"

text \<open>\<^verbatim>\<open>max(xs)\<close> of a non-empty list.\<close>

definition py_max :: "real list \<Rightarrow> real" where
  "py_max xs = foldl max (hd xs) (tl xs)"

text \<open>The score of one document: 70% best chunk + 30% average of all chunks.\<close>

definition aggregate :: "cv_result \<Rightarrow> cv_result" where
  "aggregate r =
     (if chunk_scores r = [] then r\<lparr>cv_score := 0\<rparr>
      else (let best_score = py_max (chunk_scores r);
                avg_score = sum_list (chunk_scores r) / real (length (chunk_scores r))
            in r\<lparr>cv_score := 0.7 * best_score + 0.3 * avg_score\<rparr>))"

text \<open>The same step in double precision.  Rounding to the nearest integer, ties to even:\<close>

definition round_half_even :: "real \<Rightarrow> int" where
  "round_half_even y =
     (let r = \<lfloor>y\<rfloor>; d = y - of_int r
      in if d < 1/2 then r else if 1/2 < d then r + 1 else if even r then r else r + 1)"

text \<open>The exponent of the leading binary digit of a positive real \<open>x\<close>: the integer \<open>e\<close> with
  \<open>2 powi e \<le> x\<close> and \<open>x < 2 powi (e + 1)\<close>.\<close>

definition leading_exponent :: "real \<Rightarrow> int" where
  "leading_exponent x = (if 1 \<le> x then bitlen \<lfloor>x\<rfloor> - 1 else - bitlen (\<lceil>1 / x\<rceil> - 1))"

text \<open>The exponent of the last binary digit that a double near \<open>x\<close> holds: 53 digits from
  the leading one, and not below \<open>-1074\<close>, the exponent of the smallest subnormal double.\<close>

definition double_exponent :: "real \<Rightarrow> int" where
  "double_exponent x = max (leading_exponent x - 52) (- 1074)"

text \<open>The double nearest to a real, ties to even.\<close>

definition round_double :: "real \<Rightarrow> real" where
  "round_double x =
     (if x = 0 then 0
      else (let e = double_exponent \<bar>x\<bar>
            in sgn x * of_int (round_half_even (\<bar>x\<bar> / 2 powi e)) * 2 powi e))"

text \<open>\<^verbatim>\<open>sum(chunk_scores)\<close> as CPython computes it up to version 3.11: from left to right,
  every partial sum rounded.  (From version 3.12 on, \<^verbatim>\<open>sum\<close> compensates the rounding errors
  of the partial sums.)\<close>

definition sum_left_to_right :: "real list \<Rightarrow> real" where
  "sum_left_to_right xs = foldl (\<lambda>acc x. round_double (acc + x)) 0 xs"

text \<open>The score of one document in double precision, from its list of chunk scores, with
  the summation as a parameter.  The literals \<^verbatim>\<open>0.7\<close> and \<^verbatim>\<open>0.3\<close> are the doubles nearest to
  0.7 and 0.3; \<^verbatim>\<open>max\<close> and \<^verbatim>\<open>len\<close> are exact; the division, the two products and the final
  sum are rounded.\<close>

definition aggregate_double :: "(real list \<Rightarrow> real) \<Rightarrow> real list \<Rightarrow> real" where
  "aggregate_double float_sum scores =
     (if scores = [] then 0
      else (let best_score = py_max scores;
                avg_score = round_double (float_sum scores / real (length scores))
            in round_double (round_double (round_double 0.7 * best_score)
                             + round_double (round_double 0.3 * avg_score))))"

definition make_candidate :: "string \<times> cv_result \<Rightarrow> candidate" where
  "make_candidate = (\<lambda>(cv_id, data).
     \<lparr>cand_id = cv_id, cand_text = join '' '' (take 3 (chunks data)),
      retrieval_score = Some (cv_score data), score = None\<rparr>)"

text \<open>Steps 4 and 5 of \<^verbatim>\<open>retrieve\<close>: group, score and list the candidates in the order of
  \<^verbatim>\<open>results.items()\<close>.\<close>

definition to_candidates :: "(string \<times> real) list \<Rightarrow> (string \<times> string) list
    \<Rightarrow> error + candidate list" where
  "to_candidates ranked docs =
     (case group_by_cv ranked docs [] of
        Inl e \<Rightarrow> Inl e
      | Inr results \<Rightarrow>
          Inr (map make_candidate (map (\<lambda>(cv_id, r). (cv_id, aggregate r)) results)))"

text \<open>What \<^verbatim>\<open>retrieve\<close> returns, together with the requests it sent to the vector index
  (pool size and filter of every \<^verbatim>\<open>store.search\<close> call, in order).\<close>

record retrieval =
  clean_query :: string
  candidates :: "candidate list"
  requests :: "(int \<times> where_clause option) list"

text \<open>Step 3 of \<^verbatim>\<open>Retriever.retrieve\<close>: the filtered search, then the fallback.\<close>

definition hybrid_step :: "'e hybrid_search \<Rightarrow> 'e \<Rightarrow> where_clause option \<Rightarrow> int \<Rightarrow> int
    \<Rightarrow> error + (((string \<times> real) list \<times> (string \<times> string) list)
                 \<times> (int \<times> where_clause option) list)" where
  "hybrid_step h query_vector filters k top_k =
     (case (if filters \<noteq> None
            then (case search h query_vector filters k of
                    Inl e \<Rightarrow> Inl e
                  | Inr found \<Rightarrow> Inr (found, [(k, filters)]))
            else Inr (([], []), [])) of
        Inl e \<Rightarrow> Inl e
      | Inr ((ranked, docs), sent) \<Rightarrow>
          if ranked = []
          then (case search h query_vector None (fallback_k top_k) of
                  Inl e \<Rightarrow> Inl e
                | Inr found \<Rightarrow> Inr (found, sent @ [(fallback_k top_k, None)]))
          else Inr ((ranked, docs), sent))"

text \<open>\<^verbatim>\<open>Retriever.retrieve\<close>\<close>

definition retrieve :: "'e retriever \<Rightarrow> string \<Rightarrow> ui_filters option \<Rightarrow> int
    \<Rightarrow> error + retrieval" where
  "retrieve self user_query ui top_k =
     (let (clean, filters) = parse user_query ui;
          query_vector = embedder self clean;
          h = (hybrid self)\<lparr>original_query := clean\<rparr>
      in case hybrid_step h query_vector filters (fetch_k ui top_k) top_k of
           Inl e \<Rightarrow> Inl e
         | Inr ((ranked, docs), sent) \<Rightarrow>
             (case to_candidates ranked docs of
                Inl e \<Rightarrow> Inl e
              | Inr cs \<Rightarrow> Inr \<lparr>clean_query = clean, candidates = cs, requests = sent\<rparr>))"

section \<open>CrossEncoder\<close>

text \<open>One entry of the response of the re-ranking service.\<close>

record rerank_result =
  index :: int
  relevance_score :: real

text \<open>The re-ranking client: query, documents and \<^verbatim>\<open>top_n\<close> to the results, or an exception.\<close>

type_synonym rerank_client = "string \<Rightarrow> string list \<Rightarrow> nat \<Rightarrow> error + rerank_result list"

text \<open>\<^verbatim>\<open>x.get("score", 0)\<close>, the sort key.\<close>

definition score_or_zero :: "candidate \<Rightarrow> real" where
  "score_or_zero c = (case score c of Some s \<Rightarrow> s | None \<Rightarrow> 0)"

text \<open>The fallback of \<^verbatim>\<open>rank\<close>: a candidate without \<^verbatim>\<open>score\<close> gets
  \<^verbatim>\<open>candidate.get("retrieval_score", 0)\<close>, which is \<open>retrieval_or_zero\<close>.\<close>

definition retrieval_or_zero :: "candidate \<Rightarrow> real" where
  "retrieval_or_zero c = (case retrieval_score c of Some r \<Rightarrow> r | None \<Rightarrow> 0)"

definition fill_score :: "candidate \<Rightarrow> candidate" where
  "fill_score c = (if score c = None then c\<lparr>score := Some (retrieval_or_zero c)\<rparr> else c)"

definition by_retrieval_scores :: "candidate list \<Rightarrow> candidate list" where
  "by_retrieval_scores cs = sort_desc score_or_zero (map fill_score cs)"

text \<open>The loop that attaches the scores of the response.  \<^verbatim>\<open>candidates[idx]\<close> follows
  Python's indexing (a negative index counts from the end) and raises out of range; the
  candidates already updated stay updated.\<close>

fun attach_scores :: "rerank_result list \<Rightarrow> candidate list \<Rightarrow> candidate list \<times> error option" where
  "attach_scores [] cs = (cs, None)"
| "attach_scores (r # rs) cs =
     (let n = int (length cs);
          j = (if index r < 0 then n + index r else index r)
      in if 0 \<le> j \<and> j < n
         then attach_scores rs (cs[nat j := (cs ! nat j)\<lparr>score := Some (relevance_score r)\<rparr>])
         else (cs, Some IndexError))"

text \<open>\<^verbatim>\<open>CrossEncoder.rank\<close>; \<open>client\<close> is \<open>None\<close> when the service is not available.\<close>

definition rank :: "rerank_client option \<Rightarrow> string \<Rightarrow> candidate list \<Rightarrow> error + candidate list" where
  "rank client query cs =
     (if cs = [] then Inr cs
      else case client of
        None \<Rightarrow> Inr (by_retrieval_scores cs)
      | Some rerank \<Rightarrow>
          (case rerank query (map cand_text cs) (length cs) of
             Inl e \<Rightarrow> Inr (by_retrieval_scores cs)
           | Inr results \<Rightarrow>
               (case attach_scores results cs of
                  (cs', None) \<Rightarrow> Inr (sort_desc score_or_zero cs')
                | (cs', Some e) \<Rightarrow> Inr (by_retrieval_scores cs'))))"

section \<open>CVChunker and the ingestion pipeline\<close>

text \<open>The structured record of a CV, as the parser produces it; a scalar that is absent or
  \<^verbatim>\<open>null\<close> is \<open>None\<close>.\<close>

record language =
  lang_name :: "string option"
  lang_level :: "string option"

record experience =
  exp_role :: "string option"
  exp_organization :: "string option"
  exp_from :: "string option"
  exp_to :: "string option"
  exp_description :: "string option"

record education =
  edu_degree :: "string option"
  edu_field :: "string option"
  edu_institution :: "string option"
  edu_from :: "string option"
  edu_to :: "string option"

record cv_json =
  cv_name :: "string option"
  cv_location :: "string option"
  cv_experience_years :: "int option"
  cv_title :: "string option"
  cv_summary :: "string option"
  cv_skills :: "string list"
  cv_languages :: "language list"
  cv_experience :: "experience list"
  cv_education :: "education list"
  cv_certifications :: "string list"
  cv_projects_or_work :: "string list"

text \<open>A metadata value: \<^verbatim>\<open>None\<close>, a string or an integer.\<close>

datatype mval = MNone | MStr string | MInt int

record chunk_rec =
  chunk_id :: string
  chunk_text :: string
  metadata :: "(string \<times> mval) list"

text \<open>How an f-string renders an optional string: \<^verbatim>\<open>None\<close> is the text \<^verbatim>\<open>None\<close>.\<close>

definition fmt :: "string option \<Rightarrow> string" where
  "fmt v = (case v of Some s \<Rightarrow> s | None \<Rightarrow> ''None'')"

text \<open>The decimal digits of an index.\<close>

fun show_nat :: "nat \<Rightarrow> string" where
  "show_nat n = (if n < 10 then [ascii_digits ! n]
                 else show_nat (n div 10) @ [ascii_digits ! (n mod 10)])"

definition mstr :: "string option \<Rightarrow> mval" where
  "mstr v = (case v of Some s \<Rightarrow> MStr s | None \<Rightarrow> MNone)"

definition mint :: "int option \<Rightarrow> mval" where
  "mint v = (case v of Some i \<Rightarrow> MInt i | None \<Rightarrow> MNone)"

text \<open>The truth value of an optional string: neither \<^verbatim>\<open>None\<close> nor empty.\<close>

definition truthy :: "string option \<Rightarrow> bool" where
  "truthy v = (case v of Some s \<Rightarrow> s \<noteq> [] | None \<Rightarrow> False)"

text \<open>\<^verbatim>\<open>CVChunker._build_chunk\<close>\<close>

definition build_chunk :: "string \<Rightarrow> string \<Rightarrow> string \<Rightarrow> cv_json \<Rightarrow> string list \<Rightarrow> chunk_rec" where
  "build_chunk cv_id chunk_type text cv language_names =
     \<lparr>chunk_id = cv_id @ ''_'' @ chunk_type,
      chunk_text = text,
      metadata =
        [(''cv_id'', MStr cv_id),
         (''chunk_type'', MStr chunk_type),
         (''name'', mstr (cv_name cv)),
         (''location'', mstr (cv_location cv)),
         (''experience_years'', mint (cv_experience_years cv)),
         (''title'', mstr (cv_title cv)),
         (''languages'', if language_names \<noteq> [] then MStr (join '', '' language_names)
                         else MNone)]\<rparr>"

definition experience_text :: "experience \<Rightarrow> string" where
  "experience_text e =
     ''Role: '' @ fmt (exp_role e) @ ''. '' @
     ''Company: '' @ fmt (exp_organization e) @ ''. '' @
     ''Period: '' @ fmt (exp_from e) @ '' - '' @ fmt (exp_to e) @ ''. '' @
     ''Description: '' @ fmt (exp_description e)"

definition education_text :: "education \<Rightarrow> string" where
  "education_text e =
     ''Degree: '' @ fmt (edu_degree e) @ ''. '' @
     ''Field: '' @ fmt (edu_field e) @ ''. '' @
     ''Institution: '' @ fmt (edu_institution e) @ ''. '' @
     ''Period: '' @ fmt (edu_from e) @ '' - '' @ fmt (edu_to e)"

definition profile_text :: "cv_json \<Rightarrow> string" where
  "profile_text cv =
     (if truthy (cv_title cv) then ''Job Title: '' @ fmt (cv_title cv) @ ''. '' else [])
     @ (if truthy (cv_summary cv) then ''Summary: '' @ fmt (cv_summary cv) else [])"

text \<open>\<^verbatim>\<open>CVChunker.chunk\<close>.  The source draws \<^verbatim>\<open>cv_id = str(uuid.uuid4())\<close> at every call; the
  value drawn is the first argument.\<close>

definition chunk :: "string \<Rightarrow> cv_json \<Rightarrow> chunk_rec list" where
  "chunk cv_id cv =
     (let language_names = concat (map (\<lambda>l. if truthy (lang_name l) then [fmt (lang_name l)] else [])
                                       (cv_languages cv));
          build = (\<lambda>chunk_type text. build_chunk cv_id chunk_type text cv language_names)
      in (if strip (profile_text cv) \<noteq> [] then [build ''profile'' (profile_text cv)] else [])
       @ (if cv_skills cv \<noteq> []
          then [build ''skills'' (''Skills: '' @ join '', '' (cv_skills cv))] else [])
       @ map (\<lambda>(i, e). build (''experience_'' @ show_nat i) (experience_text e))
             (enumerate 0 (cv_experience cv))
       @ map (\<lambda>(i, e). build (''education_'' @ show_nat i) (education_text e))
             (enumerate 0 (cv_education cv))
       @ (if cv_languages cv \<noteq> []
          then [build ''languages''
                  (''Languages: '' @ join '', ''
                     (map (\<lambda>l. fmt (lang_name l) @ '' ('' @ fmt (lang_level l) @ '')'')
                          (cv_languages cv)))]
          else [])
       @ (if cv_certifications cv \<noteq> []
          then [build ''certifications''
                  (''Certifications: '' @ join '', '' (cv_certifications cv))]
          else [])
       @ map (\<lambda>(i, p). build (''project_'' @ show_nat i) (''Project: '' @ p))
             (enumerate 0 (cv_projects_or_work cv)))"

text \<open>\<^verbatim>\<open>clean_metadata\<close> of the ingestion pipeline.\<close>

definition clean_metadata :: "(string \<times> mval) list \<Rightarrow> (string \<times> mval) list" where
  "clean_metadata meta = map (\<lambda>(k, v). (k, if v = MNone then MStr [] else v)) meta"

text \<open>One call of \<^verbatim>\<open>store.add\<close>.\<close>

record 'e stored =
  stored_id :: string
  stored_document :: string
  stored_embedding :: 'e
  stored_metadata :: "(string \<times> mval) list"

text \<open>\<^verbatim>\<open>IngestionPipeline.ingest_one\<close>: the entries added to the vector index, in order.\<close>

definition ingest_one :: "(string \<Rightarrow> 'e) \<Rightarrow> string \<Rightarrow> cv_json \<Rightarrow> 'e stored list" where
  "ingest_one embed_text cv_id cv =
     map (\<lambda>c. \<lparr>stored_id = chunk_id c, stored_document = chunk_text c,
               stored_embedding = embed_text (chunk_text c),
               stored_metadata = clean_metadata (metadata c)\<rparr>)
         (chunk cv_id cv)"

text \<open>\<^verbatim>\<open>AIService._ingest_with_candidate_id\<close>: the database id is added to the metadata of
  every chunk before the cleaning.\<close>

definition ingest_with_candidate_id :: "(string \<Rightarrow> 'e) \<Rightarrow> string \<Rightarrow> cv_json \<Rightarrow> int
    \<Rightarrow> 'e stored list" where
  "ingest_with_candidate_id embed_text cv_id cv candidate_id =
     map (\<lambda>c. \<lparr>stored_id = chunk_id c, stored_document = chunk_text c,
               stored_embedding = embed_text (chunk_text c),
               stored_metadata =
                 clean_metadata (AList.update ''candidate_id'' (MInt candidate_id) (metadata c))\<rparr>)
         (chunk cv_id cv)"

section \<open>The classification in the words of the specification\<close>

text \<open>The specification classifies a query by the tokens of step 1 of the lexical scorer
  (\<open>extract_keywords\<close>): a skill query has at most two such tokens, or one of them is in
  the vocabulary.  This definition follows the specification and is compared with
  \<open>is_skill_query\<close>, which follows the source.\<close>

definition spec_is_skill_query :: "string \<Rightarrow> bool" where
  "spec_is_skill_query query =
     (let tokens = extract_keywords query
      in length tokens \<le> 2 \<or> list_ex (\<lambda>t. t \<in> set TECH_SKILLS) tokens)"

section \<open>Sample inputs\<close>

text \<open>A vector index of three chunks of two documents, which answers only unfiltered
  requests, and a retriever on it.  None of the three texts contains the query \<^verbatim>\<open>zzz\<close>.\<close>

definition sample_hits :: "hit list" where
  "sample_hits = [\<lparr>hit_id = ''A_profile'', hit_document = ''java'', hit_distance = 0\<rparr>,
                  \<lparr>hit_id = ''B_profile'', hit_document = ''rust'', hit_distance = 1/9\<rparr>,
                  \<lparr>hit_id = ''A_skills'', hit_document = ''go'', hit_distance = 9\<rparr>]"

definition sample_store :: "unit vector_store" where
  "sample_store = (\<lambda>query_vector k filters. if filters = None then sample_hits else [])"

definition sample_retriever :: "unit retriever" where
  "sample_retriever = \<lparr>embedder = (\<lambda>s. ()), hybrid = \<lparr>store = sample_store, original_query = []\<rparr>\<rparr>"

definition sample_A :: candidate where
  "sample_A = \<lparr>cand_id = ''A'', cand_text = ''java go'', retrieval_score = Some (173/1000), score = None\<rparr>"

definition sample_B :: candidate where
  "sample_B = \<lparr>cand_id = ''B'', cand_text = ''rust'', retrieval_score = Some (9/50), score = None\<rparr>"


text \<open>A vector index of two chunks of two documents at the same distance, and a retriever
  on it: the query \<^verbatim>\<open>zzz\<close> gives both chunks the same fused score.\<close>

definition tied_hits :: "hit list" where
  "tied_hits = [\<lparr>hit_id = ''D_profile'', hit_document = ''rust'', hit_distance = 1\<rparr>,
                \<lparr>hit_id = ''C_profile'', hit_document = ''java'', hit_distance = 1\<rparr>]"

definition tied_store :: "unit vector_store" where
  "tied_store = (\<lambda>query_vector k filters. tied_hits)"

definition tied_retriever :: "unit retriever" where
  "tied_retriever = \<lparr>embedder = (\<lambda>s. ()), hybrid = \<lparr>store = tied_store, original_query = []\<rparr>\<rparr>"

definition tied_retrieval :: retrieval where
  "tied_retrieval = \<lparr>clean_query = ''zzz'',
     candidates = [\<lparr>cand_id = ''D'', cand_text = ''rust'', retrieval_score = Some (1/10), score = None\<rparr>,
                   \<lparr>cand_id = ''C'', cand_text = ''java'', retrieval_score = Some (1/10), score = None\<rparr>],
     requests = [(20, None)]\<rparr>"

text \<open>An index without entries, and two filter sets: a language filter alone, and an
  experience bound with a language filter.\<close>

definition empty_store :: "unit vector_store" where
  "empty_store = (\<lambda>query_vector k filters. [])"

definition empty_retriever :: "unit retriever" where
  "empty_retriever = \<lparr>embedder = (\<lambda>s. ()), hybrid = \<lparr>store = empty_store, original_query = []\<rparr>\<rparr>"

definition language_filter :: ui_filters where
  "language_filter = \<lparr>min_experience = None, max_experience = None,
                       languages = Some [''English''], location = None\<rparr>"

definition experience_filter :: ui_filters where
  "experience_filter = \<lparr>min_experience = Some 3, max_experience = None,
                       languages = Some [''English''], location = None\<rparr>"

text \<open>The candidates of the sample retrieval as input of \<^verbatim>\<open>rank\<close>, and a re-ranking client
  whose every call raises.\<close>

definition ranked_unscored :: "candidate list" where
  "ranked_unscored = [sample_A, sample_B]"

definition failing_client :: rerank_client where
  "failing_client = (\<lambda>query documents top_n. Inl ApiError)"

text \<open>A record without name, summary and languages, and two values that the UUID
  generator may return.\<close>

definition sample_cv :: cv_json where
  "sample_cv = \<lparr>cv_name = None, cv_location = Some ''Berlin'', cv_experience_years = Some 5,
                 cv_title = Some ''Backend Engineer'', cv_summary = None,
                 cv_skills = [''python'', ''sql''], cv_languages = [],
                 cv_experience = [\<lparr>exp_role = Some ''Developer'', exp_organization = None,
                                   exp_from = Some ''2019'', exp_to = Some ''present'',
                                   exp_description = None\<rparr>],
                 cv_education = [], cv_certifications = [], cv_projects_or_work = []\<rparr>"

definition uuid_1 :: string where
  "uuid_1 = ''0f8fad5b-d9cb-469f-a165-70867728950e''"

definition uuid_2 :: string where
  "uuid_2 = ''7c9e6679-7425-40de-944b-e07fc1f90ae7''"

text \<open>Three queries: the job description of the specification, the same description for a
  project manager, and a query with dotted names.\<close>

definition job_description :: string where
  "job_description = ''Looking for a senior backend engineer with five years experience''"

definition manager_description :: string where
  "manager_description = ''Looking for a senior project manager with five years experience''"

definition dotted_query :: string where
  "dotted_query = ''React.js and Node.js developer wanted''"

text \<open>A query of three words that are separated by no-break spaces (code point 0xA0).\<close>

definition nbsp_query :: string where
  "nbsp_query = [CHR ''a'', CHR ''a'', CHR 0xA0, CHR ''b'', CHR ''b'', CHR 0xA0, CHR ''c'', CHR ''c'']"

text \<open>A batch of two chunk texts for the lexical scorer.\<close>

definition mixed_batch :: "(string \<times> string) list" where
  "mixed_batch = [(''cv1_skills'', ''Skills: java, kotlin''), (''cv2_profile'', ''Python developer'')]"

section \<open>Auxiliary facts\<close>

subsection \<open>Lists and sorting\<close>

lemma sum_list_le_length_times:
  fixes m :: real
  shows "(\<forall>x\<in>set xs. x \<le> m) \<Longrightarrow> sum_list xs \<le> real (length xs) * m"
  by (induction xs) (auto simp: algebra_simps)

lemma sum_list_ge_length_times:
  fixes m :: real
  shows "(\<forall>x\<in>set xs. m \<le> x) \<Longrightarrow> real (length xs) * m \<le> sum_list xs"
  by (induction xs) (auto simp: algebra_simps)

lemma sum_list_all_zero:
  fixes f :: "'a \<Rightarrow> real"
  shows "\<forall>x\<in>set xs. f x = 0 \<Longrightarrow> sum_list (map f xs) = 0"
  by (induction xs) auto

lemma sum_list_range:
  fixes c :: real
  assumes "0 \<le> c" and "\<forall>x\<in>set xs. x = 0 \<or> c \<le> x"
  shows "sum_list xs = 0 \<or> c \<le> sum_list xs"
  using assms(2)
proof (induction xs)
  case Nil
  show ?case by simp
next
  case (Cons x xs)
  then have "sum_list xs = 0 \<or> c \<le> sum_list xs" and "x = 0 \<or> c \<le> x" by simp_all
  with assms(1) show ?case by auto
qed

lemma py_max_eq_Max: "xs \<noteq> [] \<Longrightarrow> py_max xs = Max (set xs)"
proof -
  assume "xs \<noteq> []"
  then obtain x ys where xs: "xs = x # ys" by (cases xs) auto
  have "foldl max x ys = fold max ys x"
    by (simp add: foldl_conv_fold max.commute)
  moreover have "Max (set (x # ys)) = fold max ys x"
    by (rule Max.set_eq_fold)
  ultimately show ?thesis
    by (simp add: xs py_max_def)
qed

lemma mean_le_Max:
  fixes xs :: "real list"
  assumes "xs \<noteq> []"
  shows "sum_list xs / real (length xs) \<le> Max (set xs)"
proof -
  have "sum_list xs \<le> real (length xs) * Max (set xs)"
    by (rule sum_list_le_length_times) simp
  moreover have "0 < real (length xs)" using assms by simp
  ultimately show ?thesis by (simp add: pos_divide_le_eq mult.commute)
qed

lemma remdups_append_dup: "c \<in> set B \<Longrightarrow> remdups (A @ c # B) = remdups (A @ B)"
  by (induction A) auto

lemma sort_desc_sorted: "sorted_wrt (\<lambda>a b. key b \<le> key a) (sort_desc key xs)"
proof -
  have "sorted (map (\<lambda>x. - key x) (sort_key (\<lambda>x. - key x) xs))"
    by (rule sorted_sort_key)
  then show ?thesis
    by (simp add: sort_desc_def sorted_wrt_map)
qed

lemma sort_desc_Nil: "(sort_desc key xs = []) = (xs = [])"
proof -
  have "length (sort_desc key xs) = length xs" by (simp add: sort_desc_def)
  then show ?thesis by (metis length_0_conv)
qed

lemma sort_key_map: "sort_key f (map g xs) = map g (sort_key (\<lambda>x. f (g x)) xs)"
proof (induction xs)
  case Nil
  then show ?case by simp
next
  case (Cons x xs)
  have "insort_key f (g x) (map g ys) = map g (insort_key (\<lambda>x. f (g x)) x ys)" for ys
    by (induction ys) auto
  with Cons show ?case by simp
qed

lemma sort_desc_map: "sort_desc key (map g xs) = map g (sort_desc (\<lambda>x. key (g x)) xs)"
  by (simp add: sort_desc_def sort_key_map)

lemma sort_desc_stable:
  "filter (\<lambda>x. key x = v) (sort_desc key xs) = filter (\<lambda>x. key x = v) xs"
proof -
  have "filter (\<lambda>x. - key x = - v) (sort_key (\<lambda>x. - key x) xs) = filter (\<lambda>x. - key x = - v) xs"
    by (rule sort_key_stable)
  then show ?thesis by (simp add: sort_desc_def)
qed

lemma insort_key_agree:
  "f x = g x \<Longrightarrow> \<forall>y\<in>set ys. f y = g y \<Longrightarrow> insort_key f x ys = insort_key g x ys"
  by (induction ys) auto

lemma sort_key_agree:
  "\<forall>x\<in>set xs. f x = g x \<Longrightarrow> sort_key f xs = sort_key g xs"
proof (induction xs)
  case Nil
  then show ?case by simp
next
  case (Cons x xs)
  then have "sort_key f xs = sort_key g xs" by simp
  moreover have "insort_key f x (sort_key g xs) = insort_key g x (sort_key g xs)"
    using Cons.prems by (intro insort_key_agree) auto
  ultimately show ?case by simp
qed

lemma sort_desc_agree:
  "\<forall>x\<in>set xs. f x = g x \<Longrightarrow> sort_desc f xs = sort_desc g xs"
  unfolding sort_desc_def by (rule sort_key_agree) simp

subsection \<open>Double precision\<close>

lemma round_half_even_floor: "\<lfloor>y\<rfloor> \<le> round_half_even y" "round_half_even y \<le> \<lfloor>y\<rfloor> + 1"
  by (simp_all add: round_half_even_def Let_def)

lemma round_half_even_of_int: "round_half_even (of_int z) = z"
  by (simp add: round_half_even_def)

lemma round_half_even_mono:
  assumes "a \<le> b"
  shows "round_half_even a \<le> round_half_even b"
proof (cases "\<lfloor>a\<rfloor> = \<lfloor>b\<rfloor>")
  case True
  with assms have "a - of_int \<lfloor>a\<rfloor> \<le> b - of_int \<lfloor>b\<rfloor>" by simp
  with True show ?thesis by (auto simp: round_half_even_def Let_def)
next
  case False
  with assms have "\<lfloor>a\<rfloor> < \<lfloor>b\<rfloor>" by (simp add: floor_mono order_neq_le_trans)
  then have "round_half_even a \<le> \<lfloor>b\<rfloor>" using round_half_even_floor(2)[of a] by linarith
  also have "\<dots> \<le> round_half_even b" by (rule round_half_even_floor)
  finally show ?thesis .
qed

lemma round_half_even_ge: "of_int z \<le> y \<Longrightarrow> z \<le> round_half_even y"
  using round_half_even_mono[of "of_int z" y] by (simp add: round_half_even_of_int)

lemma round_half_even_le: "y \<le> of_int z \<Longrightarrow> round_half_even y \<le> z"
  using round_half_even_mono[of y "of_int z"] by (simp add: round_half_even_of_int)

lemma bitlen_bounds_Suc:
  assumes "0 < n"
  obtains k where "bitlen n = int k + 1" and "2 ^ k \<le> n" and "n < 2 ^ Suc k"
proof -
  from assms have pos: "1 \<le> bitlen n" by (auto simp: bitlen_alt_def)
  define k where "k = nat (bitlen n - 1)"
  from pos have b: "bitlen n = int k + 1" by (simp add: k_def)
  then have "nat (bitlen n) = Suc k" by simp
  with bitlen_bounds[OF assms] have "2 ^ k \<le> n" and "n < 2 ^ Suc k"
    by (simp_all add: k_def)
  with b show ?thesis by (rule that)
qed

lemma leading_exponent_bounds:
  assumes "0 < x"
  shows "2 powi leading_exponent x \<le> x" and "x < 2 powi (leading_exponent x + 1)"
proof -
  have "2 powi leading_exponent x \<le> x \<and> x < 2 powi (leading_exponent x + 1)"
  proof (cases "1 \<le> x")
    case True
    define n where "n = \<lfloor>x\<rfloor>"
    have n: "0 < n" "of_int n \<le> x" "x < of_int n + 1" using True by (simp_all add: n_def)
    from n(1) obtain k where k: "bitlen n = int k + 1" "2 ^ k \<le> n" "n < 2 ^ Suc k"
      by (rule bitlen_bounds_Suc)
    have e: "leading_exponent x = int k"
      using True by (simp add: leading_exponent_def k n_def[symmetric])
    from k(2) have "(2::real) ^ k \<le> of_int n"
      by (metis of_int_le_iff of_int_numeral of_int_power)
    with n(2) have lo: "(2::real) ^ k \<le> x" by linarith
    from k(3) have "n + 1 \<le> 2 ^ Suc k" by linarith
    then have "of_int (n + 1) \<le> (of_int (2 ^ Suc k) :: real)" by (simp only: of_int_le_iff)
    then have "of_int n + 1 \<le> (2::real) ^ Suc k" by simp
    with n(3) have hi: "x < (2::real) ^ Suc k" by linarith
    have "2 powi (int k + 1) = (2::real) ^ Suc k"
      by (metis of_nat_Suc add.commute power_int_of_nat)
    with lo hi show ?thesis by (simp add: e)
  next
    case False
    define y where "y = 1 / x"
    from False assms have y1: "1 < y" by (simp add: y_def)
    define n where "n = \<lceil>y\<rceil> - 1"
    have n: "0 < n" "of_int n < y" "y \<le> of_int n + 1"
    proof -
      from y1 have "1 < \<lceil>y\<rceil>" by (simp add: less_ceiling_iff)
      then show "0 < n" by (simp add: n_def)
      show "of_int n < y" unfolding n_def by linarith
      show "y \<le> of_int n + 1" unfolding n_def by simp
    qed
    from n(1) obtain k where k: "bitlen n = int k + 1" "2 ^ k \<le> n" "n < 2 ^ Suc k"
      by (rule bitlen_bounds_Suc)
    have e: "leading_exponent x = - (int k + 1)"
      using False by (simp add: leading_exponent_def k n_def[symmetric] y_def[symmetric])
    from k(2) have "(2::real) ^ k \<le> of_int n"
      by (metis of_int_le_iff of_int_numeral of_int_power)
    with n(2) have lo: "(2::real) ^ k < y" by linarith
    from k(3) have "n + 1 \<le> 2 ^ Suc k" by linarith
    then have "of_int (n + 1) \<le> (of_int (2 ^ Suc k) :: real)" by (simp only: of_int_le_iff)
    then have "of_int n + 1 \<le> (2::real) ^ Suc k" by simp
    with n(3) have hi: "y \<le> (2::real) ^ Suc k" by linarith
    have x: "x = 1 / y" using assms by (simp add: y_def)
    have neg: "2 powi (- int m) = 1 / (2::real) ^ m" for m
      by (simp only: power_int_minus power_int_of_nat inverse_eq_divide)
    have p1: "2 powi (- (int k + 1)) = 1 / (2::real) ^ Suc k"
      using neg[of "Suc k"] by (simp add: add.commute)
    have p2: "2 powi (- (int k + 1) + 1) = 1 / (2::real) ^ k"
      using neg[of k] by simp
    have "1 / (2::real) ^ Suc k \<le> 1 / y"
      using hi y1 by (intro divide_left_mono) simp_all
    then have a: "1 / (2::real) ^ Suc k \<le> x" by (simp only: x)
    have "1 / y < 1 / (2::real) ^ k"
      using lo y1 by (intro divide_strict_left_mono mult_pos_pos) simp_all
    then have b: "x < 1 / (2::real) ^ k" by (simp only: x)
    from a b show ?thesis unfolding e p1 p2 by (rule conjI)
  qed
  then show "2 powi leading_exponent x \<le> x" and "x < 2 powi (leading_exponent x + 1)" by simp_all
qed

lemma leading_exponent_mono:
  assumes "0 < x" and "x \<le> y"
  shows "leading_exponent x \<le> leading_exponent y"
proof (rule ccontr)
  assume "\<not> leading_exponent x \<le> leading_exponent y"
  then have "leading_exponent y + 1 \<le> leading_exponent x" by simp
  then have "(2::real) powi (leading_exponent y + 1) \<le> 2 powi leading_exponent x"
    by (intro power_int_increasing) simp_all
  also have "\<dots> \<le> x" using assms(1) by (rule leading_exponent_bounds)
  finally have "2 powi (leading_exponent y + 1) \<le> y" using assms(2) by simp
  moreover have "y < 2 powi (leading_exponent y + 1)"
    using assms by (intro leading_exponent_bounds) simp
  ultimately show False by simp
qed

lemma round_double_pos:
  "0 < x \<Longrightarrow> round_double x
     = of_int (round_half_even (x / 2 powi double_exponent x)) * 2 powi double_exponent x"
  by (simp add: round_double_def Let_def)

lemma powi_diff: "(2::real) powi (a - b) = 2 powi a / 2 powi b"
  by (simp add: power_int_diff)

lemma scaled_less:
  assumes "0 < x"
  shows "x / 2 powi double_exponent x < 2 ^ 53"
proof -
  have "(2::real) powi (leading_exponent x - 52) \<le> 2 powi double_exponent x"
    unfolding double_exponent_def by (intro power_int_increasing) simp_all
  then have "x / 2 powi double_exponent x \<le> x / 2 powi (leading_exponent x - 52)"
    using assms by (intro divide_left_mono mult_pos_pos) simp_all
  also have "\<dots> < 2 powi (leading_exponent x + 1) / 2 powi (leading_exponent x - 52)"
    using leading_exponent_bounds(2)[OF assms] by (intro divide_strict_right_mono) simp_all
  also have "\<dots> = 2 powi ((leading_exponent x + 1) - (leading_exponent x - 52))"
    by (rule powi_diff[symmetric])
  also have "(leading_exponent x + 1) - (leading_exponent x - 52) = 53" by simp
  finally show ?thesis by simp
qed

lemma scaled_ge:
  assumes "0 < x" and "double_exponent x = leading_exponent x - 52"
  shows "2 ^ 52 \<le> x / 2 powi double_exponent x"
proof -
  have "leading_exponent x - (leading_exponent x - 52) = 52" by simp
  then have "(2::real) ^ 52 = 2 powi (leading_exponent x - (leading_exponent x - 52))" by simp
  also have "\<dots> = 2 powi leading_exponent x / 2 powi (leading_exponent x - 52)"
    by (rule powi_diff)
  also have "\<dots> \<le> x / 2 powi (leading_exponent x - 52)"
    using leading_exponent_bounds(1)[OF assms(1)] by (intro divide_right_mono) simp_all
  finally show ?thesis by (simp only: assms(2))
qed

lemma round_double_nonneg: "0 \<le> x \<Longrightarrow> 0 \<le> round_double x"
proof (cases "x = 0")
  case True
  then show ?thesis by (simp add: round_double_def)
next
  case False
  assume "0 \<le> x"
  with False have pos: "0 < x" by simp
  have "0 \<le> round_half_even (x / 2 powi double_exponent x)"
    using pos by (intro round_half_even_ge) simp
  then show ?thesis by (simp add: round_double_pos[OF pos])
qed

lemma double_exponent_mono: "0 < x \<Longrightarrow> x \<le> y \<Longrightarrow> double_exponent x \<le> double_exponent y"
  unfolding double_exponent_def using leading_exponent_mono[of x y] by simp

lemma round_double_mono_pos:
  assumes "0 < x" and "x \<le> y"
  shows "round_double x \<le> round_double y"
proof -
  from assms have ypos: "0 < y" by simp
  let ?ex = "double_exponent x" and ?ey = "double_exponent y"
  have le: "?ex \<le> ?ey" using assms by (rule double_exponent_mono)
  show ?thesis
  proof (cases "?ex = ?ey")
    case True
    have "x / 2 powi ?ex \<le> y / 2 powi ?ex"
      using assms(2) by (intro divide_right_mono) simp_all
    then have "round_half_even (x / 2 powi ?ex) \<le> round_half_even (y / 2 powi ?ex)"
      by (rule round_half_even_mono)
    then have "of_int (round_half_even (x / 2 powi ?ex)) * 2 powi ?ex
               \<le> of_int (round_half_even (y / 2 powi ?ex)) * (2::real) powi ?ex"
      by (intro mult_right_mono) simp_all
    then show ?thesis
      by (simp only: round_double_pos[OF assms(1)] round_double_pos[OF ypos] True)
  next
    case False
    with le have lt: "?ex < ?ey" by simp
    have "- 1074 \<le> ?ex" by (simp add: double_exponent_def)
    with lt have ey: "?ey = leading_exponent y - 52"
      unfolding double_exponent_def by linarith
    have "x / 2 powi ?ex \<le> of_int (2 ^ 53)"
      using scaled_less[OF assms(1)] by simp
    then have "round_half_even (x / 2 powi ?ex) \<le> 2 ^ 53"
      by (rule round_half_even_le)
    then have "(of_int (round_half_even (x / 2 powi ?ex)) :: real) \<le> of_int (2 ^ 53)"
      by (simp only: of_int_le_iff)
    then have "of_int (round_half_even (x / 2 powi ?ex)) * 2 powi ?ex \<le> 2 ^ 53 * (2::real) powi ?ex"
      by (intro mult_right_mono) simp_all
    also have "\<dots> = 2 powi (53 + ?ex)"
      by (simp add: power_int_add)
    also have "\<dots> \<le> 2 powi (52 + ?ey)"
      using lt by (intro power_int_increasing) simp_all
    also have "\<dots> = 2 ^ 52 * 2 powi ?ey"
      by (simp add: power_int_add)
    also have "\<dots> \<le> of_int (round_half_even (y / 2 powi ?ey)) * 2 powi ?ey"
    proof (intro mult_right_mono)
      have "of_int (2 ^ 52) \<le> y / 2 powi ?ey" using scaled_ge[OF ypos ey] by simp
      then have "2 ^ 52 \<le> round_half_even (y / 2 powi ?ey)" by (rule round_half_even_ge)
      then have "(of_int (2 ^ 52) :: real) \<le> of_int (round_half_even (y / 2 powi ?ey))"
        by (simp only: of_int_le_iff)
      then show "(2::real) ^ 52 \<le> of_int (round_half_even (y / 2 powi ?ey))" by simp
    qed simp
    finally show ?thesis
      by (simp only: round_double_pos[OF assms(1)] round_double_pos[OF ypos])
  qed
qed

lemma round_double_mono: "0 \<le> x \<Longrightarrow> x \<le> y \<Longrightarrow> round_double x \<le> round_double y"
proof (cases "x = 0")
  case True
  assume "x \<le> y"
  with True have "0 \<le> round_double y" by (intro round_double_nonneg) simp
  with True show ?thesis by (simp add: round_double_def)
next
  case False
  assume "0 \<le> x" "x \<le> y"
  with False show ?thesis by (intro round_double_mono_pos) simp_all
qed

lemma round_double_of_nat:
  assumes "k \<le> 2 ^ 53"
  shows "round_double (real k) = real k"
proof (cases "k = 0")
  case True
  then show ?thesis by (simp add: round_double_def)
next
  case False
  then have pos: "0 < real k" by simp
  let ?l = "leading_exponent (real k)" and ?e = "double_exponent (real k)"
  have l53: "?l \<le> 53"
  proof (rule ccontr)
    assume "\<not> ?l \<le> 53"
    then have "54 \<le> ?l" by simp
    then have "(2::real) powi 54 \<le> 2 powi ?l" by (intro power_int_increasing) simp_all
    also have "\<dots> \<le> real k" using pos by (rule leading_exponent_bounds)
    also have "\<dots> \<le> 2 ^ 53" using assms by (metis of_nat_le_iff of_nat_numeral of_nat_power)
    finally show False by simp
  qed
  have "\<exists>z. real k / 2 powi ?e = of_int z"
  proof (cases "?e \<le> 0")
    case True
    then have "2 powi ?e = 1 / (2::real) ^ nat (- ?e)"
      by (simp add: power_int_def inverse_eq_divide power_one_over)
    then have "real k / 2 powi ?e = of_int (int k * 2 ^ nat (- ?e))" by simp
    then show ?thesis ..
  next
    case False
    with l53 have e1: "?e = 1" and l: "?l = 53" by (simp_all add: double_exponent_def)
    have "(2::real) powi ?l \<le> real k" using pos by (rule leading_exponent_bounds)
    then have "(2::real) ^ 53 \<le> real k" by (simp add: l)
    moreover have "real k \<le> 2 ^ 53" using assms by (metis of_nat_le_iff of_nat_numeral of_nat_power)
    ultimately have rk: "real k = 2 ^ 53" by simp
    have "real k / 2 powi ?e = real k / 2" by (simp only: e1 power_int_1_right)
    also have "\<dots> = of_int (2 ^ 52)" by (simp add: rk)
    finally show ?thesis ..
  qed
  then obtain z where z: "real k / 2 powi ?e = of_int z" ..
  then have "of_int z * 2 powi ?e = real k" by (simp add: field_simps)
  then show ?thesis
    by (simp add: round_double_pos[OF pos] z round_half_even_of_int)
qed

lemma round_double_le_nat:
  "0 \<le> x \<Longrightarrow> x \<le> real k \<Longrightarrow> k \<le> 2 ^ 53 \<Longrightarrow> round_double x \<le> real k"
  using round_double_mono[of x "real k"] by (simp add: round_double_of_nat)

lemma foldl_add_bounds:
  assumes "\<forall>s\<in>set xs. 0 \<le> s \<and> s \<le> 1" and "0 \<le> acc" and "acc \<le> real k"
    and "k + length xs \<le> 2 ^ 53"
  shows "0 \<le> foldl (\<lambda>acc x. round_double (acc + x)) acc xs
       \<and> foldl (\<lambda>acc x. round_double (acc + x)) acc xs \<le> real (k + length xs)"
  using assms
proof (induction xs arbitrary: acc k)
  case Nil
  then show ?case by simp
next
  case (Cons x xs)
  from Cons.prems have x: "0 \<le> x" "x \<le> 1" by simp_all
  have a: "0 \<le> round_double (acc + x)"
    using Cons.prems(2) x by (intro round_double_nonneg) simp
  have "round_double (acc + x) \<le> real (Suc k)"
    using Cons.prems x by (intro round_double_le_nat) simp_all
  moreover have "Suc k + length xs \<le> 2 ^ 53" using Cons.prems(4) by simp
  moreover have "\<forall>s\<in>set xs. 0 \<le> s \<and> s \<le> 1" using Cons.prems(1) by simp
  ultimately have "0 \<le> foldl (\<lambda>acc x. round_double (acc + x)) (round_double (acc + x)) xs
       \<and> foldl (\<lambda>acc x. round_double (acc + x)) (round_double (acc + x)) xs
           \<le> real (Suc k + length xs)"
    using a by (intro Cons.IH) simp_all
  then show ?case by simp
qed

lemma sum_left_to_right_bounds:
  assumes "\<forall>s\<in>set xs. 0 \<le> s \<and> s \<le> 1" and "length xs \<le> 2 ^ 53"
  shows "0 \<le> sum_left_to_right xs" and "sum_left_to_right xs \<le> real (length xs)"
  using foldl_add_bounds[of xs 0 0] assms by (simp_all add: sum_left_to_right_def)

lemma double_constants:
  "round_double 0.7 = 3152519739159347/4503599627370496"
  "round_double 0.3 = 5404319552844595/18014398509481984"
  "round_double (3152519739159347/4503599627370496) = 3152519739159347/4503599627370496"
  "round_double (5404319552844595/18014398509481984) = 5404319552844595/18014398509481984"
  "round_double (3152519739159347/4503599627370496 + 5404319552844595/18014398509481984) = 1"
  "round_double 1 = 1"
  by code_simp+

lemma double_sum_constants: "round_double (round_double 0.7 + round_double 0.3) = 1"
  by code_simp

lemma py_max_bounds:
  assumes "xs \<noteq> []" and "\<forall>s\<in>set xs. 0 \<le> s \<and> s \<le> (1::real)"
  shows "0 \<le> py_max xs" and "py_max xs \<le> 1"
proof -
  from assms(1) obtain x ys where xs: "xs = x # ys" by (cases xs) auto
  have "lo \<le> acc \<Longrightarrow> acc \<le> hi \<Longrightarrow> \<forall>s\<in>set zs. lo \<le> s \<and> s \<le> hi
        \<Longrightarrow> lo \<le> foldl max acc zs \<and> foldl max acc zs \<le> hi" for lo hi acc :: real and zs
    by (induction zs arbitrary: acc) simp_all
  from this[of 0 x 1 ys] assms(2) show "0 \<le> py_max xs" and "py_max xs \<le> 1"
    by (simp_all add: xs py_max_def)
qed

lemma aggregate_double_unit:
  assumes "scores \<noteq> []" and "\<forall>s\<in>set scores. 0 \<le> s \<and> s \<le> 1"
    and "0 \<le> float_sum scores" and "float_sum scores \<le> real (length scores)"
  shows "0 \<le> aggregate_double float_sum scores"
    and "aggregate_double float_sum scores \<le> 1"
proof -
  let ?c7 = "round_double 0.7" and ?c3 = "round_double 0.3"
  define best where "best = py_max scores"
  define avg where "avg = round_double (float_sum scores / real (length scores))"
  have agg: "aggregate_double float_sum scores
               = round_double (round_double (?c7 * best) + round_double (?c3 * avg))"
    using assms(1) by (simp add: aggregate_double_def Let_def best_def avg_def)
  have best: "0 \<le> best" "best \<le> 1"
    unfolding best_def using assms(1,2) by (rule py_max_bounds)+
  have n: "0 < real (length scores)" using assms(1) by simp
  have q: "0 \<le> float_sum scores / real (length scores)"
    "float_sum scores / real (length scores) \<le> 1"
    using assms(3,4) n by simp_all
  have avg: "0 \<le> avg" "avg \<le> 1"
  proof -
    show "0 \<le> avg" unfolding avg_def using q(1) by (rule round_double_nonneg)
    have "avg \<le> round_double 1" unfolding avg_def using q by (rule round_double_mono)
    then show "avg \<le> 1" by (simp only: double_constants)
  qed
  have c7: "0 \<le> ?c7" and c3: "0 \<le> ?c3" by (simp_all add: double_constants)
  have p7: "0 \<le> round_double (?c7 * best)" "round_double (?c7 * best) \<le> ?c7"
  proof -
    show "0 \<le> round_double (?c7 * best)" using c7 best(1) by (intro round_double_nonneg) simp
    have "?c7 * best \<le> ?c7 * 1" using best(2) c7 by (rule mult_left_mono)
    then have "round_double (?c7 * best) \<le> round_double ?c7"
      using c7 best(1) by (intro round_double_mono) simp_all
    then show "round_double (?c7 * best) \<le> ?c7" by (simp add: double_constants)
  qed
  have p3: "0 \<le> round_double (?c3 * avg)" "round_double (?c3 * avg) \<le> ?c3"
  proof -
    show "0 \<le> round_double (?c3 * avg)" using c3 avg(1) by (intro round_double_nonneg) simp
    have "?c3 * avg \<le> ?c3 * 1" using avg(2) c3 by (rule mult_left_mono)
    then have "round_double (?c3 * avg) \<le> round_double ?c3"
      using c3 avg(1) by (intro round_double_mono) simp_all
    then show "round_double (?c3 * avg) \<le> ?c3" by (simp add: double_constants)
  qed
  show "0 \<le> aggregate_double float_sum scores"
    unfolding agg using p7(1) p3(1) by (intro round_double_nonneg) simp
  have "round_double (round_double (?c7 * best) + round_double (?c3 * avg))
          \<le> round_double (?c7 + ?c3)"
    using p7 p3 by (intro round_double_mono) simp_all
  also have "\<dots> = 1" by (rule double_sum_constants)
  finally show "aggregate_double float_sum scores \<le> 1"
    unfolding agg .
qed

subsection \<open>The lexical scorer\<close>

lemma keyword_boost_ge: "boost \<le> keyword_boost ql txl boost kw"
  by (simp add: keyword_boost_def Let_def split: option.splits)

lemma foldl_keyword_boost_ge: "boost \<le> foldl (keyword_boost ql txl) boost kws"
proof (induction kws arbitrary: boost)
  case Nil
  show ?case by simp
next
  case (Cons kw kws)
  have "boost \<le> keyword_boost ql txl boost kw" by (rule keyword_boost_ge)
  also have "\<dots> \<le> foldl (keyword_boost ql txl) (keyword_boost ql txl boost kw) kws"
    by (rule Cons.IH)
  finally show ?case by simp
qed

lemma tech_title_boost_ge: "boost \<le> tech_title_boost txl boost ws"
proof (induction txl boost ws rule: tech_title_boost.induct)
  case (3 text_lower boost word nxt rest)
  let ?b = "if word \<in> set TECH_SKILLS \<and> nxt \<in> set title_keywords
           \<and> is_substring word (take 200 text_lower)
        then boost + 0.2 else boost"
  have "boost \<le> ?b" by simp
  also have "?b \<le> tech_title_boost text_lower ?b (nxt # rest)" by (rule 3)
  finally show ?case by simp
qed simp_all

lemma get_title_boost_bounds: "1 \<le> get_title_boost query tx" "get_title_boost query tx \<le> 1.5"
proof -
  let ?b = "foldl (keyword_boost (lower query) (lower tx)) 1.0 title_keywords"
  have "1 \<le> ?b" using foldl_keyword_boost_ge[of 1 "lower query" "lower tx" title_keywords] by simp
  also have "?b \<le> tech_title_boost (lower tx) ?b (split_ws (lower query))"
    by (rule tech_title_boost_ge)
  finally show "1 \<le> get_title_boost query tx"
    by (simp add: get_title_boost_def Let_def)
  show "get_title_boost query tx \<le> 1.5"
    by (simp add: get_title_boost_def Let_def)
qed

lemma word_score_no_match: "str_count text_lower w = 0 \<Longrightarrow> word_score keywords text_lower w = 0"
  by (simp add: word_score_def)

lemma word_score_range: "word_score keywords text_lower w = 0 \<or> 0.8 \<le> word_score keywords text_lower w"
proof (cases "0 < str_count text_lower w")
  case False
  then show ?thesis by (simp add: word_score_def)
next
  case True
  have "0 \<le> ln (1 + real (str_count text_lower w))" by simp
  then have b: "1 \<le> 1 + ln (1 + real (str_count text_lower w))" by simp
  then have "0.8 \<le> word_score keywords text_lower w"
    using True by (auto simp: word_score_def Let_def)
  then show ?thesis ..
qed

lemma raw_score_no_match:
  assumes "list_all (\<lambda>w. str_count (lower t) w = 0) (expand_with_synonyms (extract_keywords q))"
    and "\<not> is_substring (lower q) (lower t)"
  shows "raw_score q t = 0"
proof -
  have "\<forall>w\<in>set (expand_with_synonyms (extract_keywords q)).
          word_score (extract_keywords q) (lower t) w = 0"
    using assms(1) by (auto simp: list_all_iff word_score_no_match)
  then have "sum_list (map (word_score (extract_keywords q) (lower t)) (expand_with_synonyms (extract_keywords q))) = 0"
    by (rule sum_list_all_zero)
  then show ?thesis using assms(2) by (simp add: raw_score_def Let_def)
qed

lemma raw_score_range: "raw_score query tx = 0 \<or> 0.8 \<le> raw_score query tx"
proof -
  define kws where "kws = extract_keywords query"
  define sm where "sm = sum_list (map (word_score kws (lower tx)) (expand_with_synonyms kws))"
  define sc where "sc = (if is_substring (lower query) (lower tx)
                   then sm + real (length kws * 2) else sm)"
  have raw: "raw_score query tx = sc * get_title_boost query tx"
    by (simp add: raw_score_def Let_def sc_def sm_def kws_def)
  have "sm = 0 \<or> 0.8 \<le> sm"
    unfolding sm_def by (rule sum_list_range) (use word_score_range in auto)
  moreover have "real (length kws * 2) = 0 \<or> 2 \<le> real (length kws * 2)"
    by (cases kws) simp_all
  ultimately have sc: "sc = 0 \<or> 0.8 \<le> sc"
    unfolding sc_def by auto
  show ?thesis
  proof (cases "sc = 0")
    case True
    then show ?thesis by (simp add: raw)
  next
    case False
    with sc have "0.8 \<le> sc" by simp
    moreover have "1 \<le> get_title_boost query tx" by (rule get_title_boost_bounds)
    ultimately have "0.8 * 1 \<le> sc * get_title_boost query tx"
      by (intro mult_mono) simp_all
    then show ?thesis by (simp add: raw)
  qed
qed

lemma raw_score_nonneg: "0 \<le> raw_score query tx"
  using raw_score_range[of query tx] by auto

lemma raw_score_phrase:
  assumes "is_substring (lower query) (lower tx)" and "extract_keywords query \<noteq> []"
  shows "0 < raw_score query tx"
proof -
  define kws where "kws = extract_keywords query"
  define sm where "sm = sum_list (map (word_score kws (lower tx)) (expand_with_synonyms kws))"
  have raw: "raw_score query tx = (sm + real (length kws * 2)) * get_title_boost query tx"
    using assms(1) by (simp add: raw_score_def Let_def sm_def kws_def)
  have "sm = 0 \<or> 0.8 \<le> sm"
    unfolding sm_def by (rule sum_list_range) (use word_score_range in auto)
  then have "0 \<le> sm" by auto
  moreover have "2 \<le> real (length kws * 2)"
    using assms(2) by (cases kws) (simp_all add: kws_def)
  ultimately have "0 < sm + real (length kws * 2)" by linarith
  moreover have "0 < get_title_boost query tx"
    using get_title_boost_bounds(1)[of query tx] by linarith
  ultimately show ?thesis unfolding raw by (rule mult_pos_pos)
qed

lemma batch_max_eq: "batch_max scores = Max (insert 0.001 (snd ` set scores))"
proof -
  have "foldl (\<lambda>max_score (doc_id, s). max max_score s) m scores = Max (insert m (snd ` set scores))" for m
  proof (induction scores arbitrary: m)
    case Nil
    show ?case by simp
  next
    case (Cons p scores)
    obtain d s where p: "p = (d, s)" by (cases p)
    have "Max (insert (max m s) (snd ` set scores)) = Max (insert m (insert s (snd ` set scores)))"
      by (cases "snd ` set scores = {}") (simp_all add: max.assoc)
    with Cons show ?case by (simp add: p)
  qed
  then show ?thesis by (simp add: batch_max_def)
qed

lemma bm25_score_eq:
  "bm25_score query documents
     = map (\<lambda>(doc_id, tx). (doc_id, raw_score query tx / batch_max (raw_scores query documents)))
           documents"
proof -
  have "0 < batch_max (raw_scores query documents)"
    unfolding batch_max_eq by (simp add: Max_gr_iff)
  then show ?thesis
    by (simp add: bm25_score_def Let_def raw_scores_def case_prod_beta o_def)
qed

lemma snd_raw_scores:
  "snd ` set (raw_scores query documents) = (\<lambda>(doc_id, tx). raw_score query tx) ` set documents"
  by (force simp: raw_scores_def)

lemma batch_max_raw:
  "batch_max (raw_scores query documents)
     = Max (insert 0.001 ((\<lambda>(doc_id, tx). raw_score query tx) ` set documents))"
  by (simp add: batch_max_eq snd_raw_scores)

lemma batch_max_bounds:
  "0.001 \<le> batch_max (raw_scores query documents)"
  "(doc_id, tx) \<in> set documents \<Longrightarrow> raw_score query tx \<le> batch_max (raw_scores query documents)"
proof -
  show "0.001 \<le> batch_max (raw_scores query documents)"
    unfolding batch_max_raw by (rule Max_ge) simp_all
  assume "(doc_id, tx) \<in> set documents"
  then have "raw_score query tx \<in> insert 0.001 ((\<lambda>(doc_id, tx). raw_score query tx) ` set documents)"
    by force
  then show "raw_score query tx \<le> batch_max (raw_scores query documents)"
    unfolding batch_max_raw by (intro Max_ge) simp_all
qed

lemma batch_max_top:
  assumes "(doc_id, tx) \<in> set documents" and "0 < raw_score query tx"
    and "\<forall>(d, t)\<in>set documents. raw_score query t \<le> raw_score query tx"
  shows "batch_max (raw_scores query documents) = raw_score query tx"
proof -
  from assms(2) raw_score_range[of query tx] have big: "0.001 \<le> raw_score query tx" by auto
  show ?thesis
    unfolding batch_max_raw
  proof (rule Max_eqI)
    show "finite (insert 0.001 ((\<lambda>(doc_id, tx). raw_score query tx) ` set documents))" by simp
    show "raw_score query tx \<in> insert 0.001 ((\<lambda>(doc_id, tx). raw_score query tx) ` set documents)"
      using assms(1) by force
    fix y assume "y \<in> insert 0.001 ((\<lambda>(doc_id, tx). raw_score query tx) ` set documents)"
    then show "y \<le> raw_score query tx" using big assms(3) by auto
  qed
qed

subsection \<open>The hybrid search\<close>

lemma search_no_hits: "store h qv k filters = [] \<Longrightarrow> search h qv filters k = Inr ([], [])"
  by (simp add: search_def)

lemma collect_hits_keys:
  "collect_hits hs docs vs = Inr (docs', vs') \<Longrightarrow>
   fst ` set docs' = fst ` set docs \<union> hit_id ` set hs"
  by (induction hs arbitrary: docs vs) (auto simp: dom_update split: if_splits)

lemma collect_hits_frame:
  "collect_hits hs docs vs = Inr (docs', vs') \<Longrightarrow> doc_id \<notin> hit_id ` set hs \<Longrightarrow>
   map_of vs' doc_id = map_of vs doc_id"
  by (induction hs arbitrary: docs vs) (auto simp: update_conv' split: if_splits)

lemma collect_hits_scores:
  "collect_hits hs docs vs = Inr (docs', vs') \<Longrightarrow> doc_id \<in> hit_id ` set hs \<Longrightarrow>
   \<exists>h\<in>set hs. hit_id h = doc_id \<and> map_of vs' doc_id = Some (1 / (1 + hit_distance h))"
proof (induction hs arbitrary: docs vs)
  case Nil
  then show ?case by simp
next
  case (Cons h hs)
  from Cons.prems(1) have nz: "1 + hit_distance h \<noteq> 0"
    and rest: "collect_hits hs (AList.update (hit_id h) (hit_document h) docs)
                 (AList.update (hit_id h) (1 / (1 + hit_distance h)) vs) = Inr (docs', vs')"
    by (auto split: if_splits)
  show ?case
  proof (cases "doc_id \<in> hit_id ` set hs")
    case True
    from Cons.IH[OF rest True] show ?thesis by auto
  next
    case False
    with Cons.prems(2) have eq: "hit_id h = doc_id" by auto
    from collect_hits_frame[OF rest False]
    have "map_of vs' doc_id = Some (1 / (1 + hit_distance h))"
      by (simp add: update_conv' eq)
    with eq show ?thesis by auto
  qed
qed

lemma search_Inr:
  assumes "search h qv filters k = Inr (ranked, docs)" and "store h qv k filters \<noteq> []"
  obtains vs where "collect_hits (store h qv k filters) [] [] = Inr (docs, vs)"
    and "ranked = sort_desc snd (map (\<lambda>(doc_id, tx).
           (doc_id, fst (weights (original_query h)) * get_or_zero vs doc_id
                    + snd (weights (original_query h))
                      * get_or_zero (bm25_score (original_query h) docs) doc_id)) docs)"
  using assms
  by (auto simp: search_def Let_def split: if_splits sum.splits prod.splits intro!: that)

lemma search_ranked_empty:
  assumes "search h qv filters k = Inr (ranked, docs)"
  shows "(ranked = []) = (store h qv k filters = [])"
proof (cases "store h qv k filters = []")
  case True
  then show ?thesis using assms by (simp add: search_def)
next
  case False
  with assms obtain vs where c: "collect_hits (store h qv k filters) [] [] = Inr (docs, vs)"
    and r: "ranked = sort_desc snd (map (\<lambda>(doc_id, tx).
           (doc_id, fst (weights (original_query h)) * get_or_zero vs doc_id
                    + snd (weights (original_query h))
                      * get_or_zero (bm25_score (original_query h) docs) doc_id)) docs)"
    by (rule search_Inr)
  from collect_hits_keys[OF c] False have "docs \<noteq> []" by auto
  then show ?thesis using False by (simp add: r sort_desc_Nil)
qed

lemma search_sorted:
  "search h qv filters k = Inr (ranked, docs) \<Longrightarrow> sorted_wrt (\<lambda>a b. snd b \<le> snd a) ranked"
  by (auto simp: search_def Let_def sort_desc_sorted split: if_splits sum.splits prod.splits)

lemma search_keys:
  assumes "search h qv filters k = Inr (ranked, docs)"
  shows "fst ` set ranked = fst ` set docs"
proof (cases "store h qv k filters = []")
  case True
  then show ?thesis using assms by (simp add: search_def)
next
  case False
  with assms obtain vs where
    r: "ranked = sort_desc snd (map (\<lambda>(doc_id, tx).
           (doc_id, fst (weights (original_query h)) * get_or_zero vs doc_id
                    + snd (weights (original_query h))
                      * get_or_zero (bm25_score (original_query h) docs) doc_id)) docs)"
    by (rule search_Inr)
  show ?thesis by (force simp: r sort_desc_def)
qed

lemma search_fused:
  assumes "search self qv filters k = Inr (ranked, docs)" and "(doc_id, s) \<in> set ranked"
  shows "\<exists>h\<in>set (store self qv k filters). hit_id h = doc_id
           \<and> s = fst (weights (original_query self)) * (1 / (1 + hit_distance h))
                 + snd (weights (original_query self))
                   * get_or_zero (bm25_score (original_query self) docs) doc_id"
proof -
  have ne: "store self qv k filters \<noteq> []"
    using assms search_ranked_empty[OF assms(1)] by auto
  with assms(1) obtain vs where c: "collect_hits (store self qv k filters) [] [] = Inr (docs, vs)"
    and r: "ranked = sort_desc snd (map (\<lambda>(doc_id, tx).
           (doc_id, fst (weights (original_query self)) * get_or_zero vs doc_id
                    + snd (weights (original_query self))
                      * get_or_zero (bm25_score (original_query self) docs) doc_id)) docs)"
    by (rule search_Inr)
  from assms(2) have in_docs: "doc_id \<in> fst ` set docs"
    and s: "s = fst (weights (original_query self)) * get_or_zero vs doc_id
                    + snd (weights (original_query self))
                      * get_or_zero (bm25_score (original_query self) docs) doc_id"
    by (force simp: r sort_desc_def)+
  from in_docs collect_hits_keys[OF c] have "doc_id \<in> hit_id ` set (store self qv k filters)"
    by simp
  from collect_hits_scores[OF c this] obtain h where "h \<in> set (store self qv k filters)"
    and "hit_id h = doc_id" and "map_of vs doc_id = Some (1 / (1 + hit_distance h))"
    by blast
  then show ?thesis using s by (auto simp: get_or_zero_def)
qed

lemma collect_hits_keys_order:
  "collect_hits hs docs vs = Inr (docs', vs') \<Longrightarrow> distinct (map fst docs) \<Longrightarrow>
   map fst docs' = rev (remdups (rev (map fst docs @ map hit_id hs)))"
proof (induction hs arbitrary: docs vs)
  case Nil
  then show ?case by (simp add: distinct_remdups_id)
next
  case (Cons h hs)
  define docs1 where "docs1 = AList.update (hit_id h) (hit_document h) docs"
  from Cons.prems(1) have rest: "collect_hits hs docs1
                 (AList.update (hit_id h) (1 / (1 + hit_distance h)) vs) = Inr (docs', vs')"
    by (auto simp: docs1_def split: if_splits)
  have k: "map fst docs1 = (if hit_id h \<in> set (map fst docs) then map fst docs
                             else map fst docs @ [hit_id h])"
    unfolding docs1_def by (rule update_keys)
  have d: "distinct (map fst docs1)"
    unfolding docs1_def using Cons.prems(2) by (rule distinct_update)
  show ?case
  proof (cases "hit_id h \<in> set (map fst docs)")
    case True
    then show ?thesis using Cons.IH[OF rest d] k by (simp add: remdups_append_dup)
  next
    case False
    then show ?thesis using Cons.IH[OF rest d] k by simp
  qed
qed

lemma search_fused_ranking:
  assumes "search h qv filters k = Inr (ranked, docs)"
  shows "\<exists>fused. map fst fused = map fst docs
           \<and> ranked = sort_desc snd fused
           \<and> map fst docs = rev (remdups (rev (map hit_id (store h qv k filters))))"
proof (cases "store h qv k filters = []")
  case True
  with assms have "ranked = []" "docs = []" by (simp_all add: search_def)
  with True have "map fst [] = map fst docs \<and> ranked = sort_desc snd []
      \<and> map fst docs = rev (remdups (rev (map hit_id (store h qv k filters))))"
    by (simp add: sort_desc_def)
  then show ?thesis ..
next
  case False
  with assms obtain vs where c: "collect_hits (store h qv k filters) [] [] = Inr (docs, vs)"
    and r: "ranked = sort_desc snd (map (\<lambda>(doc_id, tx).
           (doc_id, fst (weights (original_query h)) * get_or_zero vs doc_id
                    + snd (weights (original_query h))
                      * get_or_zero (bm25_score (original_query h) docs) doc_id)) docs)"
    by (rule search_Inr)
  let ?fused = "map (\<lambda>(doc_id, tx).
           (doc_id, fst (weights (original_query h)) * get_or_zero vs doc_id
                    + snd (weights (original_query h))
                      * get_or_zero (bm25_score (original_query h) docs) doc_id)) docs"
  have "map fst ?fused = map fst docs" by (simp add: case_prod_beta)
  moreover from collect_hits_keys_order[OF c]
  have "map fst docs = rev (remdups (rev (map hit_id (store h qv k filters))))" by simp
  ultimately have "map fst ?fused = map fst docs \<and> ranked = sort_desc snd ?fused
      \<and> map fst docs = rev (remdups (rev (map hit_id (store h qv k filters))))"
    using r by simp
  then show ?thesis ..
qed

lemma hybrid_step_sorted:
  "hybrid_step h qv filters k top_k = Inr ((ranked, docs), sent) \<Longrightarrow>
   sorted_wrt (\<lambda>a b. snd b \<le> snd a) ranked"
  by (auto simp: hybrid_step_def split: if_splits sum.splits prod.splits dest: search_sorted)

lemma hybrid_step_unfiltered:
  "hybrid_step h qv None k top_k =
     (case search h qv None (max top_k 20) of
        Inl e \<Rightarrow> Inl e
      | Inr found \<Rightarrow> Inr (found, [(max top_k 20, None)]))"
  by (simp add: hybrid_step_def fallback_k_def split: sum.splits)

lemma hybrid_step_no_filtered_hits:
  "store h qv k (Some f) = [] \<Longrightarrow>
   hybrid_step h qv (Some f) k top_k =
     (case search h qv None (max top_k 20) of
        Inl e \<Rightarrow> Inl e
      | Inr found \<Rightarrow> Inr (found, [(k, Some f), (max top_k 20, None)]))"
  by (simp add: hybrid_step_def fallback_k_def search_no_hits split: sum.splits)

lemma hybrid_step_filtered_hits:
  "store h qv k (Some f) \<noteq> [] \<Longrightarrow>
   hybrid_step h qv (Some f) k top_k =
     (case search h qv (Some f) k of
        Inl e \<Rightarrow> Inl e
      | Inr found \<Rightarrow> Inr (found, [(k, Some f)]))"
  by (auto simp: hybrid_step_def search_ranked_empty split: sum.splits)

lemma hybrid_step_last:
  assumes "hybrid_step h qv filters k top_k = Inr ((ranked, docs), sent)"
  shows "sent \<noteq> []" and "search h qv (snd (last sent)) (fst (last sent)) = Inr (ranked, docs)"
  using assms
  by (auto simp: hybrid_step_def split: if_splits sum.splits prod.splits)

subsection \<open>Grouping the chunks by document\<close>

lemma group_by_cv_scores:
  "group_by_cv ranked docs results = Inr res \<Longrightarrow> map_of res cv = Some r \<Longrightarrow>
   chunk_scores r = (case map_of results cv of Some r0 \<Rightarrow> chunk_scores r0 | None \<Rightarrow> [])
                    @ map snd (filter (\<lambda>p. cv_id_of (fst p) = cv) ranked)"
proof (induction ranked arbitrary: results)
  case Nil
  then show ?case by simp
next
  case (Cons p ranked)
  obtain doc_id s where p: "p = (doc_id, s)" by (cases p)
  from Cons.prems(1) obtain tx where t: "map_of docs doc_id = Some tx"
    by (auto simp: p Let_def split: option.splits)
  define entry where "entry = (case map_of results (cv_id_of doc_id) of
                     Some r \<Rightarrow> r
                   | None \<Rightarrow> \<lparr>cv_score = 0, chunks = [], chunk_scores = []\<rparr>)"
  define results' where "results' = AList.update (cv_id_of doc_id)
                  (entry\<lparr>chunk_scores := chunk_scores entry @ [s],
                         chunks := chunks entry @ [tx]\<rparr>) results"
  have g: "group_by_cv ranked docs results' = Inr res"
    using Cons.prems(1) by (simp add: p t Let_def results'_def entry_def)
  from Cons.IH[OF g Cons.prems(2)] show ?case
    by (auto simp: p results'_def entry_def update_conv' split: option.splits)
qed

lemma group_by_cv_dom:
  "group_by_cv ranked docs results = Inr res \<Longrightarrow>
   fst ` set res = fst ` set results \<union> (\<lambda>p. cv_id_of (fst p)) ` set ranked"
proof (induction ranked arbitrary: results)
  case Nil
  then show ?case by simp
next
  case (Cons p ranked)
  obtain doc_id s where p: "p = (doc_id, s)" by (cases p)
  from Cons.prems(1) obtain tx where t: "map_of docs doc_id = Some tx"
    by (auto simp: p Let_def split: option.splits)
  show ?case using Cons.prems Cons.IH
    by (auto simp: p t Let_def dom_update split: option.splits)
qed

lemma group_by_cv_keys:
  "group_by_cv ranked docs results = Inr res \<Longrightarrow> distinct (map fst results) \<Longrightarrow>
   map fst res = rev (remdups (rev (map fst results @ map (\<lambda>p. cv_id_of (fst p)) ranked)))"
proof (induction ranked arbitrary: results)
  case Nil
  then show ?case by (simp add: distinct_remdups_id)
next
  case (Cons p ranked)
  obtain doc_id s where p: "p = (doc_id, s)" by (cases p)
  from Cons.prems(1) obtain tx where t: "map_of docs doc_id = Some tx"
    by (auto simp: p Let_def split: option.splits)
  define entry where "entry = (case map_of results (cv_id_of doc_id) of
                     Some r \<Rightarrow> r
                   | None \<Rightarrow> \<lparr>cv_score = 0, chunks = [], chunk_scores = []\<rparr>)"
  define results' where "results' = AList.update (cv_id_of doc_id)
                  (entry\<lparr>chunk_scores := chunk_scores entry @ [s],
                         chunks := chunks entry @ [tx]\<rparr>) results"
  have g: "group_by_cv ranked docs results' = Inr res"
    using Cons.prems(1) by (simp add: p t Let_def results'_def entry_def)
  have k: "map fst results' = (if cv_id_of doc_id \<in> set (map fst results) then map fst results
                               else map fst results @ [cv_id_of doc_id])"
    unfolding results'_def by (rule update_keys)
  have d: "distinct (map fst results')"
    unfolding results'_def using Cons.prems(2) by (rule distinct_update)
  show ?case
  proof (cases "cv_id_of doc_id \<in> set (map fst results)")
    case True
    then show ?thesis using Cons.IH[OF g d] k by (simp add: p remdups_append_dup)
  next
    case False
    then show ?thesis using Cons.IH[OF g d] k by (simp add: p)
  qed
qed

lemma group_by_cv_ok:
  "fst ` set ranked \<subseteq> fst ` set docs \<Longrightarrow> \<exists>res. group_by_cv ranked docs results = Inr res"
proof (induction ranked arbitrary: results)
  case Nil
  then show ?case by simp
next
  case (Cons p ranked)
  obtain doc_id s where p: "p = (doc_id, s)" by (cases p)
  from Cons.prems have "doc_id \<in> fst ` set docs" by (simp add: p)
  then obtain tx where t: "map_of docs doc_id = Some tx"
    by (metis domD dom_map_of_conv_image_fst)
  from Cons.prems have "fst ` set ranked \<subseteq> fst ` set docs" by simp
  from Cons.IH[OF this] show ?case by (simp add: p t Let_def)
qed

lemma to_candidates_Inr:
  assumes "to_candidates ranked docs = Inr cs"
  obtains res where "group_by_cv ranked docs [] = Inr res"
    and "cs = map (\<lambda>(cv_id, r). make_candidate (cv_id, aggregate r)) res"
  using assms by (auto simp: to_candidates_def split: sum.splits prod.splits intro!: that)

lemma to_candidates_ids:
  assumes "to_candidates ranked docs = Inr cs"
  shows "map cand_id cs = rev (remdups (rev (map (\<lambda>p. cv_id_of (fst p)) ranked)))"
proof -
  from assms obtain res where g: "group_by_cv ranked docs [] = Inr res"
    and cs: "cs = map (\<lambda>(cv_id, r). make_candidate (cv_id, aggregate r)) res"
    by (rule to_candidates_Inr)
  have "map cand_id cs = map fst res"
    by (simp add: cs make_candidate_def case_prod_beta)
  with group_by_cv_keys[OF g] show ?thesis by simp
qed

lemma to_candidates_score:
  assumes "to_candidates ranked docs = Inr cs" and "c \<in> set cs"
  shows "map snd (filter (\<lambda>p. cv_id_of (fst p) = cand_id c) ranked) \<noteq> []"
    and "retrieval_score c = Some (cv_score (aggregate \<lparr>cv_score = 0, chunks = [],
           chunk_scores = map snd (filter (\<lambda>p. cv_id_of (fst p) = cand_id c) ranked)\<rparr>))"
proof -
  from assms(1) obtain res where g: "group_by_cv ranked docs [] = Inr res"
    and cs: "cs = map (\<lambda>(cv_id, r). make_candidate (cv_id, aggregate r)) res"
    by (rule to_candidates_Inr)
  from assms(2) obtain cv r where in_res: "(cv, r) \<in> set res"
    and c: "c = make_candidate (cv, aggregate r)"
    by (auto simp: cs)
  have id: "cand_id c = cv" by (simp add: c make_candidate_def)
  have "distinct (map fst res)"
    using group_by_cv_keys[OF g] by simp
  with in_res have "map_of res cv = Some r" by simp
  from group_by_cv_scores[OF g this]
  have S: "chunk_scores r = map snd (filter (\<lambda>p. cv_id_of (fst p) = cv) ranked)" by simp
  have "cv \<in> fst ` set res" using in_res by force
  with group_by_cv_dom[OF g] have "cv \<in> (\<lambda>p. cv_id_of (fst p)) ` set ranked" by simp
  then have ne: "filter (\<lambda>p. cv_id_of (fst p) = cv) ranked \<noteq> []"
    by (auto simp: filter_empty_conv)
  show "map snd (filter (\<lambda>p. cv_id_of (fst p) = cand_id c) ranked) \<noteq> []"
    using ne by (simp add: id)
  show "retrieval_score c = Some (cv_score (aggregate \<lparr>cv_score = 0, chunks = [],
           chunk_scores = map snd (filter (\<lambda>p. cv_id_of (fst p) = cand_id c) ranked)\<rparr>))"
    by (simp add: c id make_candidate_def aggregate_def S Let_def)
qed

lemma search_to_candidates_ok:
  assumes "search h qv filters k = Inr (ranked, docs)"
  shows "\<exists>cs. to_candidates ranked docs = Inr cs"
proof -
  from search_keys[OF assms] have "fst ` set ranked \<subseteq> fst ` set docs" by simp
  from group_by_cv_ok[OF this] obtain res where "group_by_cv ranked docs [] = Inr res" by blast
  then show ?thesis by (simp add: to_candidates_def)
qed

lemma aggregate_score:
  "S \<noteq> [] \<Longrightarrow> cv_score (aggregate \<lparr>cv_score = z, chunks = ch, chunk_scores = S\<rparr>)
     = 0.7 * Max (set S) + 0.3 * (sum_list S / real (length S))"
  by (simp add: aggregate_def Let_def py_max_eq_Max)

lemma retrieve_Inr:
  assumes "retrieve self user_query ui top_k = Inr r"
  obtains ranked docs where
    "hybrid_step ((hybrid self)\<lparr>original_query := strip user_query\<rparr>)
        (embedder self (strip user_query)) (build_filters ui) (fetch_k ui top_k) top_k
       = Inr ((ranked, docs), requests r)"
    and "to_candidates ranked docs = Inr (candidates r)"
    and "clean_query r = strip user_query"
  using assms
  by (auto simp: retrieve_def parse_def Let_def split: sum.splits prod.splits intro!: that)

lemma retrieve_unfold:
  "retrieve self user_query ui top_k =
     (case hybrid_step ((hybrid self)\<lparr>original_query := strip user_query\<rparr>)
             (embedder self (strip user_query)) (build_filters ui) (fetch_k ui top_k) top_k of
        Inl e \<Rightarrow> Inl e
      | Inr ((ranked, docs), sent) \<Rightarrow>
          (case to_candidates ranked docs of
             Inl e \<Rightarrow> Inl e
           | Inr cs \<Rightarrow> Inr \<lparr>clean_query = strip user_query, candidates = cs, requests = sent\<rparr>))"
  by (simp add: retrieve_def parse_def)

subsection \<open>Re-ranking, chunking and cleaning\<close>

lemma fill_score_key:
  "score c = None \<Longrightarrow> score_or_zero (fill_score c) = retrieval_or_zero c"
  by (simp add: fill_score_def score_or_zero_def)

lemma build_chunk_fields:
  "chunk_text (build_chunk cv_id kind tx cv names) = tx"
  "chunk_id (build_chunk cv_id kind tx cv names) = cv_id @ ''_'' @ kind"
  "map_of (metadata (build_chunk cv_id kind tx cv names)) ''chunk_type'' = Some (MStr kind)"
  "map_of (metadata (build_chunk cv_id kind tx cv names)) ''cv_id'' = Some (MStr cv_id)"
  by (simp_all add: build_chunk_def)

lemma clean_value: "(if v = MNone then MStr [] else v) \<noteq> MNone"
  by (cases v) simp_all

lemma clean_metadata_Cons:
  "clean_metadata ((k, v) # m) = (k, if v = MNone then MStr [] else v) # clean_metadata m"
  by (simp add: clean_metadata_def)

lemma clean_metadata_Nil: "clean_metadata [] = []"
  by (simp add: clean_metadata_def)

lemma clean_metadata_no_null: "MNone \<notin> snd ` set (clean_metadata m)"
proof (induction m)
  case Nil
  show ?case by (simp add: clean_metadata_Nil)
next
  case (Cons p m)
  obtain k v where p: "p = (k, v)" by (cases p)
  have "(if v = MNone then MStr [] else v) \<noteq> MNone" by (rule clean_value)
  then have "MNone \<noteq> (if v = MNone then MStr [] else v)" by (rule not_sym)
  with Cons show ?case unfolding p clean_metadata_Cons by simp
qed

lemma clean_metadata_lookup:
  "map_of (clean_metadata m) k = map_option (\<lambda>v. if v = MNone then MStr [] else v) (map_of m k)"
proof (induction m)
  case Nil
  show ?case by (simp add: clean_metadata_Nil)
next
  case (Cons p m)
  obtain k' v where p: "p = (k', v)" by (cases p)
  from Cons show ?case unfolding p clean_metadata_Cons by simp
qed

subsection \<open>The sample inputs evaluated\<close>

lemma sample_raw:
  "raw_score ''zzz'' ''java'' = 0" "raw_score ''zzz'' ''rust'' = 0" "raw_score ''zzz'' ''go'' = 0"
  by (rule raw_score_no_match; code_simp)+

lemma sample_collect:
  "collect_hits sample_hits [] [] =
     Inr ([(''A_profile'', ''java''), (''B_profile'', ''rust''), (''A_skills'', ''go'')],
          [(''A_profile'', 1), (''B_profile'', 9/10), (''A_skills'', 1/10)])"
  by code_simp

lemma sample_bm25:
  "bm25_score ''zzz'' [(''A_profile'', ''java''), (''B_profile'', ''rust''), (''A_skills'', ''go'')]
     = [(''A_profile'', 0), (''B_profile'', 0), (''A_skills'', 0)]"
  by (simp add: bm25_score_def raw_scores_def batch_max_def sample_raw)

lemma sample_weights: "weights ''zzz'' = (0.2, 0.8)"
  by code_simp

lemma sample_sort: 
  "sort_desc snd [(''A_profile'', 1/5::real), (''B_profile'', 9/50), (''A_skills'', 1/50)] = 
     [(''A_profile'', 1/5), (''B_profile'', 9/50), (''A_skills'', 1/50)]"
  by code_simp

lemma sample_search:
  "search \<lparr>store = sample_store, original_query = ''zzz''\<rparr> () None 20 =
     Inr ([(''A_profile'', 1/5), (''B_profile'', 9/50), (''A_skills'', 1/50)],
          [(''A_profile'', ''java''), (''B_profile'', ''rust''), (''A_skills'', ''go'')])"
proof -
  have h: "sample_store () 20 None = sample_hits" "sample_hits \<noteq> []"
    by (simp_all add: sample_store_def sample_hits_def)
  show ?thesis
    by (simp add: search_def h sample_collect sample_bm25 sample_weights get_or_zero_def sample_sort)
qed

lemma sample_strip: "strip ''zzz'' = ''zzz''" by code_simp

lemma sample_to_candidates:
  "to_candidates [(''A_profile'', 1/5), (''B_profile'', 9/50), (''A_skills'', 1/50)]
          [(''A_profile'', ''java''), (''B_profile'', ''rust''), (''A_skills'', ''go'')]
   = Inr [\<lparr>cand_id = ''A'', cand_text = ''java go'', retrieval_score = Some (173/1000), score = None\<rparr>,
    \<lparr>cand_id = ''B'', cand_text = ''rust'', retrieval_score = Some (9/50), score = None\<rparr>]"
  by code_simp

lemma sample_retrieve: "retrieve sample_retriever ''zzz'' None 10 = Inr \<lparr>clean_query = ''zzz'', candidates = 
   [\<lparr>cand_id = ''A'', cand_text = ''java go'', retrieval_score = Some (173/1000), score = None\<rparr>,
    \<lparr>cand_id = ''B'', cand_text = ''rust'', retrieval_score = Some (9/50), score = None\<rparr>], requests = [(20, None)]\<rparr>"
  by (simp add: retrieve_def parse_def sample_strip build_filters_def hybrid_step_def sample_retriever_def
       fallback_k_def sample_search sample_to_candidates)


lemma sample_hybrid_step:
  "hybrid_step \<lparr>store = sample_store, original_query = ''zzz''\<rparr> () None 20 10 =
     Inr (([(''A_profile'', 1/5), (''B_profile'', 9/50), (''A_skills'', 1/50)],
           [(''A_profile'', ''java''), (''B_profile'', ''rust''), (''A_skills'', ''go'')]),
          [(20, None)])"
  by (simp add: hybrid_step_def fallback_k_def sample_search)

lemma tied_search:
  "search \<lparr>store = tied_store, original_query = ''zzz''\<rparr> () None 20 =
     Inr ([(''D_profile'', 1/10), (''C_profile'', 1/10)],
          [(''D_profile'', ''rust''), (''C_profile'', ''java'')])"
proof -
  have h: "tied_store () 20 None = tied_hits" "tied_hits \<noteq> []"
    by (simp_all add: tied_store_def tied_hits_def)
  have c: "collect_hits tied_hits [] [] =
     Inr ([(''D_profile'', ''rust''), (''C_profile'', ''java'')],
          [(''D_profile'', 1/2), (''C_profile'', 1/2)])"
    by code_simp
  have b: "bm25_score ''zzz'' [(''D_profile'', ''rust''), (''C_profile'', ''java'')]
     = [(''D_profile'', 0), (''C_profile'', 0)]"
    by (simp add: bm25_score_def raw_scores_def batch_max_def sample_raw)
  have s: "sort_desc snd [(''D_profile'', 1/10::real), (''C_profile'', 1/10)] =
     [(''D_profile'', 1/10), (''C_profile'', 1/10)]"
    by code_simp
  show ?thesis
    by (simp add: search_def h c b sample_weights get_or_zero_def s)
qed

lemma tied_hybrid_step:
  "hybrid_step \<lparr>store = tied_store, original_query = ''zzz''\<rparr> () None 20 10 =
     Inr (([(''D_profile'', 1/10), (''C_profile'', 1/10)],
           [(''D_profile'', ''rust''), (''C_profile'', ''java'')]),
          [(20, None)])"
  by (simp add: hybrid_step_def fallback_k_def tied_search)

lemma tied_to_candidates:
  "to_candidates [(''D_profile'', 1/10), (''C_profile'', 1/10)]
          [(''D_profile'', ''rust''), (''C_profile'', ''java'')]
   = Inr [\<lparr>cand_id = ''D'', cand_text = ''rust'', retrieval_score = Some (1/10), score = None\<rparr>,
          \<lparr>cand_id = ''C'', cand_text = ''java'', retrieval_score = Some (1/10), score = None\<rparr>]"
  by code_simp

lemma tied_retrieve: "retrieve tied_retriever ''zzz'' None 10 = Inr tied_retrieval"
  by (simp add: retrieve_def parse_def sample_strip build_filters_def hybrid_step_def tied_retriever_def
       fallback_k_def tied_search tied_to_candidates tied_retrieval_def)

lemma sample_filters:
  "build_filters (Some experience_filter) = Some (Gte 3)"
  "build_filters (Some language_filter) = None"
  "fetch_k (Some experience_filter) 10 = 60"
  "has_sql_filters (Some language_filter)"
  by (simp_all add: build_filters_def fetch_k_def has_sql_filters_def
        experience_filter_def language_filter_def)

lemma sample_store_filtered: "sample_store qv k (Some f) = []"
  by (simp add: sample_store_def)

lemma sample_candidates:
  "to_candidates [(''A_profile'', 1/5), (''B_profile'', 9/50), (''A_skills'', 1/50)]
          [(''A_profile'', ''java''), (''B_profile'', ''rust''), (''A_skills'', ''go'')]
   = Inr [sample_A, sample_B]"
  by (simp add: sample_to_candidates sample_A_def sample_B_def)

lemma sample_retrieve_language:
  "retrieve sample_retriever ''zzz'' (Some language_filter) 10
     = Inr \<lparr>clean_query = ''zzz'', candidates = [sample_A, sample_B], requests = [(20, None)]\<rparr>"
  using sample_search
  by (simp add: retrieve_unfold sample_filters hybrid_step_unfiltered sample_retriever_def
        sample_strip sample_candidates)

lemma sample_chunk_ids:
  "map chunk_id (chunk uuid_1 sample_cv)
     = [''0f8fad5b-d9cb-469f-a165-70867728950e_profile'',
        ''0f8fad5b-d9cb-469f-a165-70867728950e_skills'',
        ''0f8fad5b-d9cb-469f-a165-70867728950e_experience_0'']"
  "map chunk_id (chunk uuid_2 sample_cv)
     = [''7c9e6679-7425-40de-944b-e07fc1f90ae7_profile'',
        ''7c9e6679-7425-40de-944b-e07fc1f90ae7_skills'',
        ''7c9e6679-7425-40de-944b-e07fc1f90ae7_experience_0'']"
  by code_simp+

lemma sample_chunk_metadata:
  "metadata (chunk uuid_1 sample_cv ! 0)
     = [(''cv_id'', MStr ''0f8fad5b-d9cb-469f-a165-70867728950e''),
        (''chunk_type'', MStr ''profile''), (''name'', MNone),
        (''location'', MStr ''Berlin''), (''experience_years'', MInt 5),
        (''title'', MStr ''Backend Engineer''), (''languages'', MNone)]"
  by code_simp

lemma sample_queries:
  "is_skill_query ''flutter''"
  "is_skill_query job_description"
  "\<not> is_skill_query manager_description"
  "\<not> is_skill_query dotted_query"
  "spec_is_skill_query dotted_query"
  by code_simp+

lemma sample_words:
  "filter (\<lambda>w. w \<notin> set STOP_WORDS) (split_ws (lower job_description))
     = [''senior'', ''backend'', ''engineer'', ''five'']"
  "filter (\<lambda>w. w \<notin> set STOP_WORDS) (split_ws (lower dotted_query))
     = [''react.js'', ''node.js'', ''developer'', ''wanted'']"
  "extract_keywords dotted_query = [''react'', ''js'', ''node'', ''js'', ''developer'', ''wanted'']"
  by code_simp+

lemma sample_nbsp:
  "split_ws (lower nbsp_query) = [''aa'', ''bb'', ''cc'']"
  "\<not> is_skill_query nbsp_query"
  by code_simp+

lemma skill_batch_raw: "raw_score ''python'' ''Skills: java, kotlin'' = 0"
  by (rule raw_score_no_match; code_simp)

lemma mixed_batch_raw: "0 < raw_score ''python'' ''Python developer''"
  by (rule raw_score_phrase; code_simp)

section \<open>The query classification and the lexical scorer\<close>

text \<open>
  Claim C1 says that the query ``Looking for a senior backend engineer with five years
  experience'' is not a skill query, and that the classification reads the tokens of the
  lexical scorer.  The word \<^verbatim>\<open>backend\<close> is in \<^verbatim>\<open>TECH_SKILLS\<close>, so the query is a skill query
  with the weights 0.8 keyword and 0.2 semantic; and \<^verbatim>\<open>_is_skill_query\<close> splits at white
  space only, so in ``React.js and Node.js developer wanted'' it does not find the word
  \<^verbatim>\<open>react\<close> that the tokens of the lexical scorer contain.
\<close>

theorem C1_counterexample:
  "is_skill_query ''Looking for a senior backend engineer with five years experience''
   \<and> weights ''Looking for a senior backend engineer with five years experience'' = (0.2, 0.8)
   \<and> spec_is_skill_query ''React.js and Node.js developer wanted''
   \<and> \<not> is_skill_query ''React.js and Node.js developer wanted''"
  using sample_queries
  by (simp add: weights_def job_description_def dotted_query_def)

text \<open>
  Claim C1, amended.  A query is a skill query exactly when, after lower-casing, splitting
  at white space and dropping the stop words, at most two words are left or one of the
  words left is in \<^verbatim>\<open>TECH_SKILLS\<close>.  The weights are 0.2 semantic and 0.8 keyword for a skill
  query, 0.6 semantic and 0.4 keyword otherwise, and the fused score of every ranked chunk
  is the weighted sum of its vector similarity \<open>1 / (1 + distance)\<close> and its keyword score.
  The query \<^verbatim>\<open>flutter\<close> is a skill query, the job description of the claim is a skill query,
  and the same description with ``project manager'' in place of ``backend engineer'' is not.
  White space is what \<^verbatim>\<open>str.split\<close> takes for it, the no-break space included: three words
  outside the vocabulary that are separated by no-break spaces are three words, and not a
  skill query.
\<close>

theorem skill_query_classification:
  "is_skill_query query
     = (let words = filter (\<lambda>w. w \<notin> set STOP_WORDS) (split_ws (lower query))
        in length words \<le> 2 \<or> list_ex (\<lambda>w. w \<in> set TECH_SKILLS) words)
   \<and> weights query = (if is_skill_query query then (0.2, 0.8) else (0.6, 0.4))
   \<and> (search self qv filters k = Inr (ranked, docs) \<longrightarrow> (doc_id, s) \<in> set ranked \<longrightarrow>
        (\<exists>h\<in>set (store self qv k filters). hit_id h = doc_id
           \<and> s = fst (weights (original_query self)) * (1 / (1 + hit_distance h))
                 + snd (weights (original_query self))
                   * get_or_zero (bm25_score (original_query self) docs) doc_id))
   \<and> is_skill_query ''flutter'' \<and> weights ''flutter'' = (0.2, 0.8)
   \<and> is_skill_query job_description \<and> weights job_description = (0.2, 0.8)
   \<and> \<not> is_skill_query manager_description \<and> weights manager_description = (0.6, 0.4)
   \<and> split_ws (lower nbsp_query) = [''aa'', ''bb'', ''cc'']
   \<and> \<not> is_skill_query nbsp_query \<and> weights nbsp_query = (0.6, 0.4)"
proof (intro conjI impI)
  show "is_skill_query query
     = (let words = filter (\<lambda>w. w \<notin> set STOP_WORDS) (split_ws (lower query))
        in length words \<le> 2 \<or> list_ex (\<lambda>w. w \<in> set TECH_SKILLS) words)"
    by (simp add: is_skill_query_def Let_def)
  show "weights query = (if is_skill_query query then (0.2, 0.8) else (0.6, 0.4))"
    by (simp add: weights_def)
  show "is_skill_query ''flutter''" "is_skill_query job_description"
    "\<not> is_skill_query manager_description"
    by (rule sample_queries)+
  show "weights ''flutter'' = (0.2, 0.8)" "weights job_description = (0.2, 0.8)"
    "weights manager_description = (0.6, 0.4)"
    using sample_queries by (simp_all add: weights_def)
  show "split_ws (lower nbsp_query) = [''aa'', ''bb'', ''cc'']" "\<not> is_skill_query nbsp_query"
    by (rule sample_nbsp)+
  show "weights nbsp_query = (0.6, 0.4)"
    using sample_nbsp by (simp add: weights_def)
next
  assume "search self qv filters k = Inr (ranked, docs)" and "(doc_id, s) \<in> set ranked"
  then show "\<exists>h\<in>set (store self qv k filters). hit_id h = doc_id
           \<and> s = fst (weights (original_query self)) * (1 / (1 + hit_distance h))
                 + snd (weights (original_query self))
                   * get_or_zero (bm25_score (original_query self) docs) doc_id"
    by (rule search_fused)
qed

text \<open>The sample index: the fused score of the chunk \<^verbatim>\<open>B_profile\<close> for the skill query
  \<^verbatim>\<open>zzz\<close>.\<close>

theorem skill_query_classification_witness:
  "search \<lparr>store = sample_store, original_query = ''zzz''\<rparr> () None 20 =
     Inr ([(''A_profile'', 1/5), (''B_profile'', 9/50), (''A_skills'', 1/50)],
          [(''A_profile'', ''java''), (''B_profile'', ''rust''), (''A_skills'', ''go'')])
   \<and> (''B_profile'', 9/50) \<in> set [(''A_profile'', 1/5 :: real), (''B_profile'', 9/50), (''A_skills'', 1/50)]
   \<and> (\<exists>h\<in>set (store \<lparr>store = sample_store, original_query = ''zzz''\<rparr> () 20 None).
         hit_id h = ''B_profile''
         \<and> (9/50 :: real)
             = fst (weights (original_query \<lparr>store = sample_store, original_query = ''zzz''\<rparr>))
                 * (1 / (1 + hit_distance h))
               + snd (weights (original_query \<lparr>store = sample_store, original_query = ''zzz''\<rparr>))
                 * get_or_zero (bm25_score (original_query \<lparr>store = sample_store, original_query = ''zzz''\<rparr>)
                     [(''A_profile'', ''java''), (''B_profile'', ''rust''), (''A_skills'', ''go'')])
                     ''B_profile'')
   \<and> is_skill_query ''zzz''"
proof -
  have h1: "search \<lparr>store = sample_store, original_query = ''zzz''\<rparr> () None 20 =
     Inr ([(''A_profile'', 1/5), (''B_profile'', 9/50), (''A_skills'', 1/50)],
          [(''A_profile'', ''java''), (''B_profile'', ''rust''), (''A_skills'', ''go'')])"
    by (rule sample_search)
  have h2: "(''B_profile'', 9/50) \<in> set [(''A_profile'', 1/5 :: real), (''B_profile'', 9/50), (''A_skills'', 1/50)]"
    by simp
  note t = skill_query_classification[of "''zzz''" "\<lparr>store = sample_store, original_query = ''zzz''\<rparr>"
             "()" None 20 "[(''A_profile'', 1/5), (''B_profile'', 9/50), (''A_skills'', 1/50)]"
             "[(''A_profile'', ''java''), (''B_profile'', ''rust''), (''A_skills'', ''go'')]"
             "''B_profile''" "9/50"]
  from t have c: "search \<lparr>store = sample_store, original_query = ''zzz''\<rparr> () None 20 =
     Inr ([(''A_profile'', 1/5), (''B_profile'', 9/50), (''A_skills'', 1/50)],
          [(''A_profile'', ''java''), (''B_profile'', ''rust''), (''A_skills'', ''go'')]) \<longrightarrow>
     (''B_profile'', 9/50) \<in> set [(''A_profile'', 1/5 :: real), (''B_profile'', 9/50), (''A_skills'', 1/50)] \<longrightarrow>
     (\<exists>h\<in>set (store \<lparr>store = sample_store, original_query = ''zzz''\<rparr> () 20 None).
         hit_id h = ''B_profile''
         \<and> (9/50 :: real)
             = fst (weights (original_query \<lparr>store = sample_store, original_query = ''zzz''\<rparr>))
                 * (1 / (1 + hit_distance h))
               + snd (weights (original_query \<lparr>store = sample_store, original_query = ''zzz''\<rparr>))
                 * get_or_zero (bm25_score (original_query \<lparr>store = sample_store, original_query = ''zzz''\<rparr>)
                     [(''A_profile'', ''java''), (''B_profile'', ''rust''), (''A_skills'', ''go'')])
                     ''B_profile'')"
    by (rule conjunct2[THEN conjunct2, THEN conjunct1])
  have s: "is_skill_query ''zzz''" by code_simp
  from c[rule_format, OF h1 h2] h1 h2 s show ?thesis by (intro conjI)
qed

text \<open>
  Claim C3 says that the id with the highest raw score gets the score 1.  In a batch where
  no text contains a keyword of the query every raw score is 0, the divisor is 0.001, and
  every id, the highest included, gets the score 0.
\<close>

theorem C3_counterexample:
  "bm25_score ''python'' [(''cv1_skills'', ''Skills: java, kotlin'')] = [(''cv1_skills'', 0)]"
  by (simp add: bm25_score_eq batch_max_raw skill_batch_raw)

text \<open>
  Claim C3, amended.  Every score that \<^verbatim>\<open>bm25_score\<close> returns is in the unit interval: the
  score of an id is its raw score divided by the greatest raw score of the batch, and by
  0.001 when that is smaller.  An id with raw score 0 keeps the score 0.  An id whose raw
  score is positive and the greatest of the batch gets the score 1.
\<close>

theorem bm25_score_normalised:
  "(\<forall>(doc_id, s)\<in>set (bm25_score query documents). 0 \<le> s \<and> s \<le> 1)
   \<and> bm25_score query documents
       = map (\<lambda>(doc_id, tx). (doc_id, raw_score query tx
                / Max (insert 0.001 ((\<lambda>(doc_id, tx). raw_score query tx) ` set documents))))
             documents
   \<and> (\<forall>(doc_id, tx)\<in>set documents.
         raw_score query tx = 0 \<longrightarrow> (doc_id, 0) \<in> set (bm25_score query documents))
   \<and> (\<forall>(doc_id, tx)\<in>set documents.
         0 < raw_score query tx
         \<and> (\<forall>(d, t)\<in>set documents. raw_score query t \<le> raw_score query tx)
         \<longrightarrow> (doc_id, 1) \<in> set (bm25_score query documents))"
proof (intro conjI)
  let ?M = "batch_max (raw_scores query documents)"
  have pos: "0 < ?M" by (rule less_le_trans[OF _ batch_max_bounds(1)]) simp
  show "\<forall>(doc_id, s)\<in>set (bm25_score query documents). 0 \<le> s \<and> s \<le> 1"
  proof (clarify)
    fix doc_id s assume "(doc_id, s) \<in> set (bm25_score query documents)"
    then obtain tx where m: "(doc_id, tx) \<in> set documents" and s: "s = raw_score query tx / ?M"
      unfolding bm25_score_eq by auto
    have "0 \<le> raw_score query tx" by (rule raw_score_nonneg)
    moreover have "raw_score query tx \<le> ?M" using m by (rule batch_max_bounds(2))
    ultimately show "0 \<le> s \<and> s \<le> 1" using pos by (simp add: s)
  qed
  show "bm25_score query documents
       = map (\<lambda>(doc_id, tx). (doc_id, raw_score query tx
                / Max (insert 0.001 ((\<lambda>(doc_id, tx). raw_score query tx) ` set documents))))
             documents"
    unfolding bm25_score_eq batch_max_raw ..
  show "\<forall>(doc_id, tx)\<in>set documents.
         raw_score query tx = 0 \<longrightarrow> (doc_id, 0) \<in> set (bm25_score query documents)"
  proof (clarify)
    fix doc_id tx assume "(doc_id, tx) \<in> set documents" and "raw_score query tx = 0"
    then show "(doc_id, 0) \<in> set (bm25_score query documents)"
      unfolding bm25_score_eq by force
  qed
  show "\<forall>(doc_id, tx)\<in>set documents.
         0 < raw_score query tx
         \<and> (\<forall>(d, t)\<in>set documents. raw_score query t \<le> raw_score query tx)
         \<longrightarrow> (doc_id, 1) \<in> set (bm25_score query documents)"
  proof (clarify)
    fix doc_id tx assume m: "(doc_id, tx) \<in> set documents" and p: "0 < raw_score query tx"
      and top: "\<forall>(d, t)\<in>set documents. raw_score query t \<le> raw_score query tx"
    from m p top have "?M = raw_score query tx" by (rule batch_max_top)
    with p have "raw_score query tx / ?M = 1" by simp
    with m show "(doc_id, 1) \<in> set (bm25_score query documents)"
      unfolding bm25_score_eq by force
  qed
qed

text \<open>A batch of two texts for the query \<^verbatim>\<open>python\<close>: one without a match, one that contains
  the query.\<close>

theorem bm25_score_normalised_witness:
  "(''cv2_profile'', ''Python developer'') \<in> set mixed_batch
   \<and> 0 < raw_score ''python'' ''Python developer''
   \<and> list_all (\<lambda>(d, t). raw_score ''python'' t \<le> raw_score ''python'' ''Python developer'') mixed_batch
   \<and> (''cv2_profile'', 1) \<in> set (bm25_score ''python'' mixed_batch)
   \<and> (''cv1_skills'', ''Skills: java, kotlin'') \<in> set mixed_batch
   \<and> raw_score ''python'' ''Skills: java, kotlin'' = 0
   \<and> (''cv1_skills'', 0) \<in> set (bm25_score ''python'' mixed_batch)
   \<and> list_all (\<lambda>(doc_id, s). 0 \<le> s \<and> s \<le> 1) (bm25_score ''python'' mixed_batch)"
proof -
  note t = bm25_score_normalised[of "''python''" mixed_batch]
  have m2: "(''cv2_profile'', ''Python developer'') \<in> set mixed_batch"
    and m1: "(''cv1_skills'', ''Skills: java, kotlin'') \<in> set mixed_batch"
    by (simp_all add: mixed_batch_def)
  have p: "0 < raw_score ''python'' ''Python developer''" by (rule mixed_batch_raw)
  have z: "raw_score ''python'' ''Skills: java, kotlin'' = 0" by (rule skill_batch_raw)
  have top: "\<forall>(d, t)\<in>set mixed_batch.
               raw_score ''python'' t \<le> raw_score ''python'' ''Python developer''"
    using p z by (simp add: mixed_batch_def)
  from t have "\<forall>(doc_id, tx)\<in>set mixed_batch.
         0 < raw_score ''python'' tx
         \<and> (\<forall>(d, t)\<in>set mixed_batch. raw_score ''python'' t \<le> raw_score ''python'' tx)
         \<longrightarrow> (doc_id, 1) \<in> set (bm25_score ''python'' mixed_batch)"
    by (rule conjunct2[THEN conjunct2, THEN conjunct2])
  with m2 p top have one: "(''cv2_profile'', 1) \<in> set (bm25_score ''python'' mixed_batch)"
    by fast
  from t have "\<forall>(doc_id, tx)\<in>set mixed_batch.
         raw_score ''python'' tx = 0 \<longrightarrow> (doc_id, 0) \<in> set (bm25_score ''python'' mixed_batch)"
    by (rule conjunct2[THEN conjunct2, THEN conjunct1])
  with m1 z have zero: "(''cv1_skills'', 0) \<in> set (bm25_score ''python'' mixed_batch)"
    by fast
  from t have "\<forall>(doc_id, s)\<in>set (bm25_score ''python'' mixed_batch). 0 \<le> s \<and> s \<le> 1"
    by (rule conjunct1)
  then have unit: "list_all (\<lambda>(doc_id, s). 0 \<le> s \<and> s \<le> 1) (bm25_score ''python'' mixed_batch)"
    unfolding list_all_iff .
  from top have top': "list_all (\<lambda>(d, t). raw_score ''python'' t
                          \<le> raw_score ''python'' ''Python developer'') mixed_batch"
    unfolding list_all_iff .
  from m2 p top' one m1 z zero unit show ?thesis by (intro conjI)
qed

section \<open>The retriever\<close>



text \<open>
  Claim C10 says that the aggregated score of a document lies between the mean and the
  maximum of its chunk scores.  The code computes the score in double precision, where
  both bounds fail by a unit in the last place.  For the single chunk score 0.2 the
  score is 0.19999999999999998, below the mean 0.2: the doubles \<^verbatim>\<open>0.7\<close> and \<^verbatim>\<open>0.3\<close> add up
  to less than 1.  For five chunk scores 0.9225918889349113 the score is
  0.9225918889349114, above the maximum: the sum of the five scores is rounded up, and
  the average with it.  The fractions are the doubles that Python reads from these
  literals and prints as these.
\<close>

theorem C10_counterexample:
  "(let S = [3602879701896397/18014398509481984]
    in aggregate_double sum_left_to_right S = 7205759403792793/36028797018963968
       \<and> aggregate_double sum_left_to_right S < sum_list S / real (length S))
   \<and> (let S = replicate 5 (8309968974444617/9007199254740992)
      in aggregate_double sum_left_to_right S = 4154984487222309/4503599627370496
         \<and> Max (set S) < aggregate_double sum_left_to_right S)
   \<and> round_double 0.2 = 3602879701896397/18014398509481984
   \<and> round_double 0.9225918889349113 = 8309968974444617/9007199254740992"
proof -
  have a: "aggregate_double sum_left_to_right [3602879701896397/18014398509481984]
             = 7205759403792793/36028797018963968"
    by code_simp
  have b: "aggregate_double sum_left_to_right (replicate 5 (8309968974444617/9007199254740992))
             = 4154984487222309/4503599627370496"
    by code_simp
  have c: "round_double 0.2 = 3602879701896397/18014398509481984"
    "round_double 0.9225918889349113 = 8309968974444617/9007199254740992"
    by code_simp+
  have d: "set (replicate 5 (8309968974444617/9007199254740992 :: real))
             = {8309968974444617/9007199254740992}"
    by simp
  show ?thesis unfolding Let_def a b d c by simp
qed

text \<open>
  Claim C10, amended.  For a non-empty list of at most \<open>2 ^ 53\<close> chunk scores, all in the unit
  interval, the aggregated score computed in double precision is in the unit interval,
  without any clamping: with the summation from left to right, and with every summation
  whose result for the list is between 0 and the number of scores.
\<close>

theorem aggregate_double_unit_interval:
  assumes "S \<noteq> []" and "\<forall>s\<in>set S. 0 \<le> s \<and> s \<le> 1" and "length S \<le> 2 ^ 53"
  shows "0 \<le> aggregate_double sum_left_to_right S
         \<and> aggregate_double sum_left_to_right S \<le> 1
         \<and> (0 \<le> float_sum S \<and> float_sum S \<le> real (length S) \<longrightarrow>
              0 \<le> aggregate_double float_sum S \<and> aggregate_double float_sum S \<le> 1)"
proof (intro conjI impI)
  have s: "0 \<le> sum_left_to_right S" "sum_left_to_right S \<le> real (length S)"
    using assms(2,3) by (rule sum_left_to_right_bounds)+
  from assms(1,2) s show "0 \<le> aggregate_double sum_left_to_right S"
    by (rule aggregate_double_unit)
  from assms(1,2) s show "aggregate_double sum_left_to_right S \<le> 1"
    by (rule aggregate_double_unit)
next
  assume f: "0 \<le> float_sum S \<and> float_sum S \<le> real (length S)"
  then have f1: "0 \<le> float_sum S" and f2: "float_sum S \<le> real (length S)" by simp_all
  from assms(1,2) f1 f2 show "0 \<le> aggregate_double float_sum S"
    by (rule aggregate_double_unit)
  from assms(1,2) f1 f2 show "aggregate_double float_sum S \<le> 1"
    by (rule aggregate_double_unit)
qed

text \<open>The chunk scores 0.9, 0.3, 0.3 as doubles: the score is the double that Python prints
  as 0.78.  The second summation is the exact one.\<close>

theorem aggregate_double_unit_interval_witness:
  "[8106479329266893/9007199254740992, 5404319552844595/18014398509481984,
    5404319552844595/18014398509481984] \<noteq> ([] :: real list)
   \<and> list_all (\<lambda>s. 0 \<le> s \<and> s \<le> 1)
        [8106479329266893/9007199254740992 :: real, 5404319552844595/18014398509481984,
         5404319552844595/18014398509481984]
   \<and> length [8106479329266893/9007199254740992 :: real, 5404319552844595/18014398509481984,
              5404319552844595/18014398509481984] \<le> 2 ^ 53
   \<and> aggregate_double sum_left_to_right
        [8106479329266893/9007199254740992, 5404319552844595/18014398509481984,
         5404319552844595/18014398509481984] = 3512807709348987/4503599627370496
   \<and> 0 \<le> aggregate_double sum_left_to_right
        [8106479329266893/9007199254740992, 5404319552844595/18014398509481984,
         5404319552844595/18014398509481984]
   \<and> aggregate_double sum_left_to_right
        [8106479329266893/9007199254740992, 5404319552844595/18014398509481984,
         5404319552844595/18014398509481984] \<le> 1
   \<and> 0 \<le> aggregate_double sum_list
        [8106479329266893/9007199254740992, 5404319552844595/18014398509481984,
         5404319552844595/18014398509481984]
   \<and> aggregate_double sum_list
        [8106479329266893/9007199254740992, 5404319552844595/18014398509481984,
         5404319552844595/18014398509481984] \<le> 1"
proof -
  let ?S = "[8106479329266893/9007199254740992 :: real, 5404319552844595/18014398509481984,
             5404319552844595/18014398509481984]"
  have h1: "?S \<noteq> []" by simp
  have h2: "\<forall>s\<in>set ?S. 0 \<le> s \<and> s \<le> 1" by simp
  have h3: "length ?S \<le> 2 ^ 53" by simp
  have h4: "0 \<le> sum_list ?S \<and> sum_list ?S \<le> real (length ?S)" by simp
  have v: "aggregate_double sum_left_to_right ?S = 3512807709348987/4503599627370496"
    by code_simp
  note t = aggregate_double_unit_interval[OF h1 h2 h3, of sum_list]
  from t have t1: "0 \<le> aggregate_double sum_left_to_right ?S"
    and t2: "aggregate_double sum_left_to_right ?S \<le> 1" by simp_all
  from t h4 have t3: "0 \<le> aggregate_double sum_list ?S"
    and t4: "aggregate_double sum_list ?S \<le> 1" by blast+
  have l: "list_all (\<lambda>s. 0 \<le> s \<and> s \<le> 1) ?S" by simp
  from h1 l h3 v t1 t2 t3 t4 show ?thesis by (intro conjI)
qed


text \<open>
  In exact arithmetic the retrieval score of every returned candidate lies between the
  mean and the maximum of the document's fused chunk scores, and in the unit interval
  whenever every chunk score does.
\<close>

lemma retrieve_score_exact:
  "retrieve self user_query ui top_k = Inr r \<Longrightarrow> c \<in> set (candidates r) \<Longrightarrow>
     \<exists>ranked docs a.
        hybrid_step ((hybrid self)\<lparr>original_query := strip user_query\<rparr>)
          (embedder self (strip user_query)) (build_filters ui) (fetch_k ui top_k) top_k
          = Inr ((ranked, docs), requests r)
        \<and> (let S = map snd (filter (\<lambda>p. cv_id_of (fst p) = cand_id c) ranked)
           in S \<noteq> [] \<and> retrieval_score c = Some a
              \<and> sum_list S / real (length S) \<le> a \<and> a \<le> Max (set S)
              \<and> ((\<forall>s\<in>set S. 0 \<le> s \<and> s \<le> 1) \<longrightarrow> 0 \<le> a \<and> a \<le> 1))"
proof -
  assume a: "retrieve self user_query ui top_k = Inr r" and c: "c \<in> set (candidates r)"
  from a obtain ranked docs where
    h: "hybrid_step ((hybrid self)\<lparr>original_query := strip user_query\<rparr>)
          (embedder self (strip user_query)) (build_filters ui) (fetch_k ui top_k) top_k
          = Inr ((ranked, docs), requests r)"
    and t: "to_candidates ranked docs = Inr (candidates r)"
    by (rule retrieve_Inr)
  define S where "S = map snd (filter (\<lambda>p. cv_id_of (fst p) = cand_id c) ranked)"
  define m where "m = sum_list S / real (length S)"
  define a where "a = 0.7 * Max (set S) + 0.3 * m"
  have ne: "S \<noteq> []" unfolding S_def using t c by (rule to_candidates_score(1))
  have "retrieval_score c = Some (cv_score (aggregate \<lparr>cv_score = 0, chunks = [], chunk_scores = S\<rparr>))"
    unfolding S_def using t c by (rule to_candidates_score(2))
  with ne have sc: "retrieval_score c = Some a"
    by (simp add: aggregate_score a_def m_def)
  have mm: "m \<le> Max (set S)" unfolding m_def using ne by (rule mean_le_Max)
  then have lo: "m \<le> a" and hi: "a \<le> Max (set S)" by (simp_all add: a_def)
  have unit: "0 \<le> a \<and> a \<le> 1" if b: "\<forall>s\<in>set S. 0 \<le> s \<and> s \<le> 1"
  proof -
    have "real (length S) * 0 \<le> sum_list S"
      by (rule sum_list_ge_length_times) (use b in simp)
    then have "0 \<le> m" by (simp add: m_def)
    moreover have "Max (set S) \<le> 1" using b ne by simp
    ultimately show ?thesis using lo hi by linarith
  qed
  from h ne sc lo hi unit show ?thesis
    unfolding S_def m_def Let_def by blast
qed

text \<open>
  Claim C4 says that \<^verbatim>\<open>retrieve\<close> returns the candidates sorted descending by aggregated
  score.  On the sample index the query \<^verbatim>\<open>zzz\<close> returns document \<open>A\<close> (aggregated score
  0.173) before document \<open>B\<close> (aggregated score 0.18): \<^verbatim>\<open>retrieve\<close> does not sort, its
  docstring says it retrieves without ranking, and the caller sorts.
\<close>

theorem C4_counterexample:
  "retrieve sample_retriever ''zzz'' None 10 =
     Inr \<lparr>clean_query = ''zzz'',
          candidates =
            [\<lparr>cand_id = ''A'', cand_text = ''java go'', retrieval_score = Some (173/1000), score = None\<rparr>,
             \<lparr>cand_id = ''B'', cand_text = ''rust'', retrieval_score = Some (9/50), score = None\<rparr>],
          requests = [(20, None)]\<rparr>
   \<and> (173/1000 :: real) < 9/50"
  by (simp add: sample_retrieve)

text \<open>
  Claim C4, amended.  The candidates are returned in the order in which their documents
  first appear in the fused ranking.  The fused ranking is the list \<open>fused\<close> of the chunk
  ids with their fused scores, stably sorted descending by score: it is sorted, and the
  entries of equal score keep the order they have in \<open>fused\<close>.  The ids of \<open>fused\<close> are
  those of \<^verbatim>\<open>docs\<close>, which are the ids of the hits of the last request to the vector index,
  in the order of their first occurrence.  (The list \<open>rev (remdups (rev xs))\<close> keeps the
  first occurrence of every element of \<open>xs\<close>, in order.)  So a tie of fused scores is
  broken by the order of the hits, and \<^verbatim>\<open>retrieve\<close> sorts nothing by aggregated score.
\<close>

theorem retrieve_order_of_first_appearance:
  "retrieve self user_query ui top_k = Inr r \<Longrightarrow>
     \<exists>ranked docs fused.
        hybrid_step ((hybrid self)\<lparr>original_query := strip user_query\<rparr>)
          (embedder self (strip user_query)) (build_filters ui) (fetch_k ui top_k) top_k
          = Inr ((ranked, docs), requests r)
        \<and> requests r \<noteq> []
        \<and> map fst docs
            = rev (remdups (rev (map hit_id
                (store (hybrid self) (embedder self (strip user_query))
                   (fst (last (requests r))) (snd (last (requests r)))))))
        \<and> map fst fused = map fst docs
        \<and> ranked = sort_desc snd fused
        \<and> sorted_wrt (\<lambda>a b. snd b \<le> snd a) ranked
        \<and> (\<forall>v. filter (\<lambda>p. snd p = v) ranked = filter (\<lambda>p. snd p = v) fused)
        \<and> map cand_id (candidates r) = rev (remdups (rev (map (\<lambda>p. cv_id_of (fst p)) ranked)))"
proof -
  let ?h = "(hybrid self)\<lparr>original_query := strip user_query\<rparr>"
  let ?qv = "embedder self (strip user_query)"
  assume a: "retrieve self user_query ui top_k = Inr r"
  from a obtain ranked docs where
    h: "hybrid_step ?h ?qv (build_filters ui) (fetch_k ui top_k) top_k
          = Inr ((ranked, docs), requests r)"
    and t: "to_candidates ranked docs = Inr (candidates r)"
    by (rule retrieve_Inr)
  from h have ne: "requests r \<noteq> []"
    and s: "search ?h ?qv (snd (last (requests r))) (fst (last (requests r))) = Inr (ranked, docs)"
    by (rule hybrid_step_last)+
  from search_fused_ranking[OF s] obtain fused where
    f1: "map fst fused = map fst docs" and f2: "ranked = sort_desc snd fused"
    and f3: "map fst docs = rev (remdups (rev (map hit_id
                (store (hybrid self) ?qv (fst (last (requests r))) (snd (last (requests r)))))))"
    by auto
  have f4: "sorted_wrt (\<lambda>a b. snd b \<le> snd a) ranked"
    unfolding f2 by (rule sort_desc_sorted)
  have f5: "\<forall>v. filter (\<lambda>p. snd p = v) ranked = filter (\<lambda>p. snd p = v) fused"
    unfolding f2 by (simp add: sort_desc_stable)
  from t have f6: "map cand_id (candidates r)
      = rev (remdups (rev (map (\<lambda>p. cv_id_of (fst p)) ranked)))"
    by (rule to_candidates_ids)
  from h ne f3 f1 f2 f4 f5 f6 show ?thesis by blast
qed

text \<open>An index whose two hits get the same fused score 0.1: the chunk of document \<open>D\<close>,
  which the index returns first, stays before the chunk of document \<open>C\<close>, and the
  candidates, both of aggregated score 0.1, are returned in this order.\<close>

theorem retrieve_order_of_first_appearance_witness:
  "retrieve tied_retriever ''zzz'' None 10 = Inr tied_retrieval
   \<and> hybrid_step ((hybrid tied_retriever)\<lparr>original_query := strip ''zzz''\<rparr>)
          (embedder tied_retriever (strip ''zzz'')) (build_filters None) (fetch_k None 10) 10
        = Inr (([(''D_profile'', 1/10), (''C_profile'', 1/10)],
                [(''D_profile'', ''rust''), (''C_profile'', ''java'')]),
               requests tied_retrieval)
   \<and> map hit_id (store (hybrid tied_retriever) (embedder tied_retriever (strip ''zzz''))
                    (fst (last (requests tied_retrieval))) (snd (last (requests tied_retrieval))))
        = [''D_profile'', ''C_profile'']
   \<and> map cand_id (candidates tied_retrieval) = [''D'', ''C'']
   \<and> map retrieval_score (candidates tied_retrieval) = [Some (1/10), Some (1/10)]
   \<and> (\<exists>ranked docs fused.
        hybrid_step ((hybrid tied_retriever)\<lparr>original_query := strip ''zzz''\<rparr>)
          (embedder tied_retriever (strip ''zzz'')) (build_filters None) (fetch_k None 10) 10
          = Inr ((ranked, docs), requests tied_retrieval)
        \<and> requests tied_retrieval \<noteq> []
        \<and> map fst docs
            = rev (remdups (rev (map hit_id
                (store (hybrid tied_retriever) (embedder tied_retriever (strip ''zzz''))
                   (fst (last (requests tied_retrieval))) (snd (last (requests tied_retrieval)))))))
        \<and> map fst fused = map fst docs
        \<and> ranked = sort_desc snd fused
        \<and> sorted_wrt (\<lambda>a b. snd b \<le> snd a) ranked
        \<and> (\<forall>v. filter (\<lambda>p. snd p = v) ranked = filter (\<lambda>p. snd p = v) fused)
        \<and> map cand_id (candidates tied_retrieval)
            = rev (remdups (rev (map (\<lambda>p. cv_id_of (fst p)) ranked))))"
proof -
  have h1: "retrieve tied_retriever ''zzz'' None 10 = Inr tied_retrieval"
    by (rule tied_retrieve)
  have h2: "hybrid_step ((hybrid tied_retriever)\<lparr>original_query := strip ''zzz''\<rparr>)
          (embedder tied_retriever (strip ''zzz'')) (build_filters None) (fetch_k None 10) 10
        = Inr (([(''D_profile'', 1/10), (''C_profile'', 1/10)],
                [(''D_profile'', ''rust''), (''C_profile'', ''java'')]),
               requests tied_retrieval)"
    using tied_hybrid_step
    by (simp add: tied_retriever_def sample_strip build_filters_def fetch_k_def
          has_sql_filters_def tied_retrieval_def)
  have h3: "map hit_id (store (hybrid tied_retriever) (embedder tied_retriever (strip ''zzz''))
                    (fst (last (requests tied_retrieval))) (snd (last (requests tied_retrieval))))
        = [''D_profile'', ''C_profile'']"
    by (simp add: tied_retriever_def tied_store_def tied_hits_def)
  have h4: "map cand_id (candidates tied_retrieval) = [''D'', ''C'']"
    "map retrieval_score (candidates tied_retrieval) = [Some (1/10), Some (1/10)]"
    by (simp_all add: tied_retrieval_def)
  from retrieve_order_of_first_appearance[OF h1] h1 h2 h3 h4 show ?thesis by (intro conjI)
qed


text \<open>
  Claim C5.  When the filtered request to the vector index returns no hit, \<^verbatim>\<open>retrieve\<close>
  searches again without filter at pool size \<open>max top_k 20\<close>; its result is built from what
  \<^verbatim>\<open>HybridSearch.search\<close> returns for that query, no filter and that pool size, and its
  candidates are those of the same call without any filter.  When the unfiltered request
  returns no hit either, the result is the empty candidate list, not an error.
\<close>

theorem retrieve_fallback:
  assumes "build_filters ui = Some f"
    and "store (hybrid self) (embedder self (strip user_query)) (fetch_k ui top_k) (Some f) = []"
  shows "retrieve self user_query ui top_k =
           (case search ((hybrid self)\<lparr>original_query := strip user_query\<rparr>)
                   (embedder self (strip user_query)) None (max top_k 20) of
              Inl e \<Rightarrow> Inl e
            | Inr (ranked, docs) \<Rightarrow>
                (case to_candidates ranked docs of
                   Inl e \<Rightarrow> Inl e
                 | Inr cs \<Rightarrow>
                     Inr \<lparr>clean_query = strip user_query, candidates = cs,
                          requests = [(fetch_k ui top_k, Some f), (max top_k 20, None)]\<rparr>))
         \<and> map_sum id candidates (retrieve self user_query ui top_k)
             = map_sum id candidates (retrieve self user_query None top_k)
         \<and> (store (hybrid self) (embedder self (strip user_query)) (max top_k 20) None = [] \<longrightarrow>
              retrieve self user_query ui top_k =
                Inr \<lparr>clean_query = strip user_query, candidates = [],
                     requests = [(fetch_k ui top_k, Some f), (max top_k 20, None)]\<rparr>)"
proof (intro conjI impI)
  let ?h = "(hybrid self)\<lparr>original_query := strip user_query\<rparr>"
  let ?qv = "embedder self (strip user_query)"
  have empty: "store ?h ?qv (fetch_k ui top_k) (Some f) = []"
    using assms(2) by simp
  have step: "hybrid_step ?h ?qv (Some f) (fetch_k ui top_k) top_k =
     (case search ?h ?qv None (max top_k 20) of
        Inl e \<Rightarrow> Inl e
      | Inr found \<Rightarrow> Inr (found, [(fetch_k ui top_k, Some f), (max top_k 20, None)]))"
    using empty by (rule hybrid_step_no_filtered_hits)
  show main: "retrieve self user_query ui top_k =
           (case search ?h ?qv None (max top_k 20) of
              Inl e \<Rightarrow> Inl e
            | Inr (ranked, docs) \<Rightarrow>
                (case to_candidates ranked docs of
                   Inl e \<Rightarrow> Inl e
                 | Inr cs \<Rightarrow>
                     Inr \<lparr>clean_query = strip user_query, candidates = cs,
                          requests = [(fetch_k ui top_k, Some f), (max top_k 20, None)]\<rparr>))"
    by (simp add: retrieve_unfold assms(1) step split: sum.splits prod.splits)
  have direct: "retrieve self user_query None top_k =
           (case search ?h ?qv None (max top_k 20) of
              Inl e \<Rightarrow> Inl e
            | Inr (ranked, docs) \<Rightarrow>
                (case to_candidates ranked docs of
                   Inl e \<Rightarrow> Inl e
                 | Inr cs \<Rightarrow>
                     Inr \<lparr>clean_query = strip user_query, candidates = cs,
                          requests = [(max top_k 20, None)]\<rparr>))"
    by (simp add: retrieve_unfold build_filters_def hybrid_step_unfiltered
             split: sum.splits prod.splits)
  show "map_sum id candidates (retrieve self user_query ui top_k)
             = map_sum id candidates (retrieve self user_query None top_k)"
    by (simp add: main direct split: sum.splits prod.splits)
  assume "store (hybrid self) (embedder self (strip user_query)) (max top_k 20) None = []"
  then have "store ?h ?qv (max top_k 20) None = []" by simp
  then have "search ?h ?qv None (max top_k 20) = Inr ([], [])" by (rule search_no_hits)
  then show "retrieve self user_query ui top_k =
                Inr \<lparr>clean_query = strip user_query, candidates = [],
                     requests = [(fetch_k ui top_k, Some f), (max top_k 20, None)]\<rparr>"
    by (simp add: main to_candidates_def)
qed

text \<open>The sample index answers no filtered request, and the empty index answers none.\<close>

theorem retrieve_fallback_witness:
  "build_filters (Some experience_filter) = Some (Gte 3)
   \<and> store (hybrid sample_retriever) (embedder sample_retriever (strip ''zzz''))
         (fetch_k (Some experience_filter) 10) (Some (Gte 3)) = []
   \<and> retrieve sample_retriever ''zzz'' (Some experience_filter) 10
       = Inr \<lparr>clean_query = ''zzz'', candidates = [sample_A, sample_B],
              requests = [(60, Some (Gte 3)), (20, None)]\<rparr>
   \<and> map_sum id candidates (retrieve sample_retriever ''zzz'' (Some experience_filter) 10)
       = map_sum id candidates (retrieve sample_retriever ''zzz'' None 10)
   \<and> store (hybrid empty_retriever) (embedder empty_retriever (strip ''zzz'')) (max 10 20) None = []
   \<and> retrieve empty_retriever ''zzz'' (Some experience_filter) 10
       = Inr \<lparr>clean_query = ''zzz'', candidates = [],
              requests = [(60, Some (Gte 3)), (20, None)]\<rparr>"
proof -
  have h1: "build_filters (Some experience_filter) = Some (Gte 3)"
    by (rule sample_filters)
  have h2: "store (hybrid sample_retriever) (embedder sample_retriever (strip ''zzz''))
         (fetch_k (Some experience_filter) 10) (Some (Gte 3)) = []"
    by (simp add: sample_retriever_def sample_store_filtered)
  have h3: "store (hybrid empty_retriever) (embedder empty_retriever (strip ''zzz''))
         (fetch_k (Some experience_filter) 10) (Some (Gte 3)) = []"
    by (simp add: empty_retriever_def empty_store_def)
  have h4: "store (hybrid empty_retriever) (embedder empty_retriever (strip ''zzz'')) (max 10 20) None = []"
    by (simp add: empty_retriever_def empty_store_def)
  have s: "search ((hybrid sample_retriever)\<lparr>original_query := strip ''zzz''\<rparr>)
             (embedder sample_retriever (strip ''zzz'')) None (max 10 20)
           = Inr ([(''A_profile'', 1/5), (''B_profile'', 9/50), (''A_skills'', 1/50)],
                  [(''A_profile'', ''java''), (''B_profile'', ''rust''), (''A_skills'', ''go'')])"
    using sample_search by (simp add: sample_retriever_def sample_strip)
  note a = retrieve_fallback[OF h1 h2]
  note b = retrieve_fallback[OF h1 h3]
  have c1: "retrieve sample_retriever ''zzz'' (Some experience_filter) 10
       = Inr \<lparr>clean_query = ''zzz'', candidates = [sample_A, sample_B],
              requests = [(60, Some (Gte 3)), (20, None)]\<rparr>"
    using a[THEN conjunct1] unfolding s
    by (simp add: sample_candidates sample_strip sample_filters)
  have c2: "retrieve empty_retriever ''zzz'' (Some experience_filter) 10
       = Inr \<lparr>clean_query = ''zzz'', candidates = [],
              requests = [(60, Some (Gte 3)), (20, None)]\<rparr>"
    using b[THEN conjunct2, THEN conjunct2, rule_format, OF h4]
    by (simp add: sample_strip sample_filters)
  from a have c3: "map_sum id candidates (retrieve sample_retriever ''zzz'' (Some experience_filter) 10)
       = map_sum id candidates (retrieve sample_retriever ''zzz'' None 10)"
    by blast
  from h1 h2 h4 c1 c2 c3 show ?thesis by blast
qed

text \<open>
  Claim C9.  The pool is to hold \<open>max (3 * top_k) 60\<close> chunks whenever a language or location
  filter is present, because the caller filters by language and location afterwards.  For
  a language filter alone and \<open>top_k = 10\<close> the code computes \<open>fetch_k = 60\<close>, but no filter
  reaches the vector index, the filtered search is skipped, and the only request has pool
  size 20: \<open>fetch_k\<close> is read by the filtered search alone.  The docstring of \<^verbatim>\<open>retrieve\<close>
  gives the later filtering by language and location as the reason for the wider pool, so
  the code misses here what it sets out to do.
\<close>

theorem retrieve_language_filter_pool:
  "has_sql_filters (Some language_filter)
   \<and> fetch_k (Some language_filter) 10 = 60
   \<and> build_filters (Some language_filter) = None
   \<and> retrieve sample_retriever ''zzz'' (Some language_filter) 10
       = Inr \<lparr>clean_query = ''zzz'', candidates = [sample_A, sample_B], requests = [(20, None)]\<rparr>"
  by (simp add: sample_filters sample_retrieve_language fetch_k_def)

text \<open>
  The requests of \<^verbatim>\<open>retrieve\<close> in general.  Without an experience bound it sends one
  unfiltered request of pool size \<open>max top_k 20\<close>.  With an experience bound it sends a
  filtered request of pool size \<open>fetch_k\<close>, followed, when that request returns no hit, by an
  unfiltered request of pool size \<open>max top_k 20\<close>.
\<close>

lemma retrieve_requests:
  assumes "retrieve self user_query ui top_k = Inr r"
  shows "requests r =
     (case build_filters ui of
        None \<Rightarrow> [(max top_k 20, None)]
      | Some f \<Rightarrow>
          (let k = (if has_sql_filters ui then max (3 * top_k) 60 else max top_k 20)
           in if store (hybrid self) (embedder self (strip user_query)) k (Some f) = []
              then [(k, Some f), (max top_k 20, None)]
              else [(k, Some f)]))"
proof -
  let ?h = "(hybrid self)\<lparr>original_query := strip user_query\<rparr>"
  let ?qv = "embedder self (strip user_query)"
  from assms obtain ranked docs where
    h: "hybrid_step ?h ?qv (build_filters ui) (fetch_k ui top_k) top_k
          = Inr ((ranked, docs), requests r)"
    by (rule retrieve_Inr)
  have k: "fetch_k ui top_k = (if has_sql_filters ui then max (3 * top_k) 60 else max top_k 20)"
    by (simp add: fetch_k_def mult.commute)
  show ?thesis
  proof (cases "build_filters ui")
    case None
    with h show ?thesis by (auto simp: hybrid_step_unfiltered split: sum.splits)
  next
    case (Some f)
    show ?thesis
    proof (cases "store ?h ?qv (fetch_k ui top_k) (Some f) = []")
      case True
      with h Some show ?thesis
        by (auto simp: hybrid_step_no_filtered_hits k Let_def split: sum.splits)
    next
      case False
      with h Some show ?thesis
        by (auto simp: hybrid_step_filtered_hits k Let_def split: sum.splits)
    qed
  qed
qed

section \<open>The re-ranker\<close>

text \<open>
  Claim C6.  When the re-ranking service is not available, or its call raises, \<^verbatim>\<open>rank\<close>
  returns normally: every candidate without a score gets its retrieval score, and the list
  is sorted descending by score, candidates of equal score keeping their order.  When no
  candidate carries a score on entry (as for the candidates \<^verbatim>\<open>retrieve\<close> returns), the
  result is the list in the stable descending order of the retrieval scores.
\<close>

theorem rank_degrades_to_retrieval_order:
  assumes "client = None \<or> (\<exists>rerank e. client = Some rerank
              \<and> rerank query (map cand_text cs) (length cs) = Inl e)"
  shows "\<exists>out. rank client query cs = Inr out
      \<and> out = sort_desc score_or_zero (map fill_score cs)
      \<and> sorted_wrt (\<lambda>a b. score_or_zero b \<le> score_or_zero a) out
      \<and> (\<forall>v. filter (\<lambda>c. score_or_zero c = v) out
              = filter (\<lambda>c. score_or_zero c = v) (map fill_score cs))
      \<and> ((\<forall>c\<in>set cs. score c = None) \<longrightarrow>
            out = map fill_score (sort_desc retrieval_or_zero cs))"
proof -
  define out where "out = sort_desc score_or_zero (map fill_score cs)"
  have r: "rank client query cs = Inr out"
    using assms by (auto simp: rank_def by_retrieval_scores_def out_def sort_desc_def)
  have s: "sorted_wrt (\<lambda>a b. score_or_zero b \<le> score_or_zero a) out"
    unfolding out_def by (rule sort_desc_sorted)
  have st: "filter (\<lambda>c. score_or_zero c = v) out
              = filter (\<lambda>c. score_or_zero c = v) (map fill_score cs)" for v
    unfolding out_def by (rule sort_desc_stable)
  have u: "out = map fill_score (sort_desc retrieval_or_zero cs)"
    if "\<forall>c\<in>set cs. score c = None"
  proof -
    have "out = map fill_score (sort_desc (\<lambda>c. score_or_zero (fill_score c)) cs)"
      by (simp add: out_def sort_desc_map)
    also have "sort_desc (\<lambda>c. score_or_zero (fill_score c)) cs = sort_desc retrieval_or_zero cs"
      by (rule sort_desc_agree) (use that in \<open>simp add: fill_score_key\<close>)
    finally show ?thesis .
  qed
  from r s st u out_def show ?thesis by blast
qed

text \<open>The two sample candidates, without a client and with a client whose call raises.\<close>

theorem rank_degrades_to_retrieval_order_witness:
  "(\<exists>out. rank None ''zzz'' ranked_unscored = Inr out
      \<and> out = sort_desc score_or_zero (map fill_score ranked_unscored)
      \<and> sorted_wrt (\<lambda>a b. score_or_zero b \<le> score_or_zero a) out
      \<and> (\<forall>v. filter (\<lambda>c. score_or_zero c = v) out
              = filter (\<lambda>c. score_or_zero c = v) (map fill_score ranked_unscored))
      \<and> ((\<forall>c\<in>set ranked_unscored. score c = None) \<longrightarrow>
            out = map fill_score (sort_desc retrieval_or_zero ranked_unscored)))
   \<and> list_all (\<lambda>c. score c = None) ranked_unscored
   \<and> failing_client ''zzz'' (map cand_text ranked_unscored) (length ranked_unscored) = Inl ApiError
   \<and> rank (Some failing_client) ''zzz'' ranked_unscored
       = Inr [sample_B\<lparr>score := Some (9/50)\<rparr>, sample_A\<lparr>score := Some (173/1000)\<rparr>]"
proof -
  have a: "list_all (\<lambda>c. score c = None) ranked_unscored"
    by (simp add: ranked_unscored_def sample_A_def sample_B_def)
  have f: "failing_client ''zzz'' (map cand_text ranked_unscored) (length ranked_unscored) = Inl ApiError"
    by (simp add: failing_client_def)
  have h: "Some failing_client = None \<or> (\<exists>rerank e. Some failing_client = Some rerank
              \<and> rerank ''zzz'' (map cand_text ranked_unscored) (length ranked_unscored) = Inl e)"
    using f by blast
  have srt: "sort_desc retrieval_or_zero ranked_unscored = [sample_B, sample_A]"
    by (simp add: sort_desc_def ranked_unscored_def retrieval_or_zero_def sample_A_def sample_B_def)
  from rank_degrades_to_retrieval_order[OF h] a
  have "rank (Some failing_client) ''zzz'' ranked_unscored
          = Inr (map fill_score (sort_desc retrieval_or_zero ranked_unscored))"
    by (auto simp: list_all_iff)
  then have c: "rank (Some failing_client) ''zzz'' ranked_unscored
       = Inr [sample_B\<lparr>score := Some (9/50)\<rparr>, sample_A\<lparr>score := Some (173/1000)\<rparr>]"
    by (simp add: srt fill_score_def retrieval_or_zero_def sample_A_def sample_B_def)
  have "None = None \<or> (\<exists>rerank e. (None :: rerank_client option) = Some rerank
              \<and> rerank ''zzz'' (map cand_text ranked_unscored) (length ranked_unscored) = Inl e)"
    by simp
  from rank_degrades_to_retrieval_order[OF this] a f c show ?thesis by blast
qed

section \<open>The chunker and the ingestion pipeline\<close>

text \<open>
  Claim C7 says that chunking the same record twice yields identical texts and ids.  The
  chunker draws a fresh UUID at every call and builds every id from it, so two calls on the
  same record that draw different UUIDs return different ids.
\<close>

theorem C7_counterexample:
  "map chunk_id (chunk uuid_1 sample_cv)
     = [''0f8fad5b-d9cb-469f-a165-70867728950e_profile'',
        ''0f8fad5b-d9cb-469f-a165-70867728950e_skills'',
        ''0f8fad5b-d9cb-469f-a165-70867728950e_experience_0'']
   \<and> map chunk_id (chunk uuid_2 sample_cv)
     = [''7c9e6679-7425-40de-944b-e07fc1f90ae7_profile'',
        ''7c9e6679-7425-40de-944b-e07fc1f90ae7_skills'',
        ''7c9e6679-7425-40de-944b-e07fc1f90ae7_experience_0'']
   \<and> map chunk_id (chunk uuid_1 sample_cv) \<noteq> map chunk_id (chunk uuid_2 sample_cv)"
  by (simp add: sample_chunk_ids)

text \<open>
  Claim C7, amended.  The texts and the kinds of the chunks are a function of the record
  alone: two calls on the same record return the same texts and kinds, in the same order,
  whatever UUIDs they draw.  Every chunk id is the UUID drawn by the call, an underscore
  and the kind of the chunk, and the UUID is also the \<^verbatim>\<open>cv_id\<close> of the metadata.
\<close>

theorem chunk_texts_and_ids:
  "map chunk_text (chunk u1 cv) = map chunk_text (chunk u2 cv)
   \<and> map (\<lambda>c. map_of (metadata c) ''chunk_type'') (chunk u1 cv)
       = map (\<lambda>c. map_of (metadata c) ''chunk_type'') (chunk u2 cv)
   \<and> (\<forall>c\<in>set (chunk u1 cv). \<exists>kind.
         map_of (metadata c) ''chunk_type'' = Some (MStr kind)
         \<and> map_of (metadata c) ''cv_id'' = Some (MStr u1)
         \<and> chunk_id c = u1 @ ''_'' @ kind)"
proof (intro conjI ballI)
  show "map chunk_text (chunk u1 cv) = map chunk_text (chunk u2 cv)"
    by (simp add: chunk_def Let_def build_chunk_fields o_def case_prod_beta)
  show "map (\<lambda>c. map_of (metadata c) ''chunk_type'') (chunk u1 cv)
       = map (\<lambda>c. map_of (metadata c) ''chunk_type'') (chunk u2 cv)"
    by (simp add: chunk_def Let_def build_chunk_fields o_def case_prod_beta)
next
  fix c assume "c \<in> set (chunk u1 cv)"
  then obtain kind tx names where "c = build_chunk u1 kind tx cv names"
    by (auto simp: chunk_def Let_def split: if_splits)
  then show "\<exists>kind. map_of (metadata c) ''chunk_type'' = Some (MStr kind)
         \<and> map_of (metadata c) ''cv_id'' = Some (MStr u1)
         \<and> chunk_id c = u1 @ ''_'' @ kind"
    by (auto simp: build_chunk_fields)
qed

text \<open>The sample record has three chunks.\<close>

theorem chunk_texts_and_ids_witness:
  "chunk uuid_1 sample_cv \<noteq> []
   \<and> map chunk_text (chunk uuid_1 sample_cv) = map chunk_text (chunk uuid_2 sample_cv)
   \<and> list_all (\<lambda>c. \<exists>kind. map_of (metadata c) ''chunk_type'' = Some (MStr kind)
         \<and> map_of (metadata c) ''cv_id'' = Some (MStr uuid_1)
         \<and> chunk_id c = uuid_1 @ ''_'' @ kind) (chunk uuid_1 sample_cv)"
proof -
  have "map chunk_id (chunk uuid_1 sample_cv) \<noteq> []" by (simp add: sample_chunk_ids)
  then have "chunk uuid_1 sample_cv \<noteq> []" by auto
  with chunk_texts_and_ids[of uuid_1 sample_cv uuid_2] show ?thesis
    by (simp add: list_all_iff)
qed

text \<open>
  Claim C8 says that the metadata of a chunk holds no null value when the chunk leaves the
  chunker.  The sample record has no name and no language: the metadata of its first
  chunk, as \<^verbatim>\<open>chunk\<close> returns it, holds \<^verbatim>\<open>None\<close> under \<^verbatim>\<open>name\<close> and \<^verbatim>\<open>languages\<close>.
\<close>

theorem C8_counterexample:
  "metadata (chunk uuid_1 sample_cv ! 0)
     = [(''cv_id'', MStr ''0f8fad5b-d9cb-469f-a165-70867728950e''),
        (''chunk_type'', MStr ''profile''), (''name'', MNone),
        (''location'', MStr ''Berlin''), (''experience_years'', MInt 5),
        (''title'', MStr ''Backend Engineer''), (''languages'', MNone)]
   \<and> MNone \<in> snd ` set (metadata (chunk uuid_1 sample_cv ! 0))"
  by (simp add: sample_chunk_metadata)

text \<open>
  Claim C8, amended.  The metadata that the ingestion pipeline hands to the vector index
  holds no null value: both ingestion paths pass the metadata of every chunk through the
  cleaning step, which keeps the keys and their order, replaces \<^verbatim>\<open>None\<close> by the empty string
  and leaves every other value as it is.
\<close>

theorem stored_metadata_no_null:
  "(\<forall>s\<in>set (ingest_one embed_text cv_id cv). MNone \<notin> snd ` set (stored_metadata s))
   \<and> (\<forall>s\<in>set (ingest_with_candidate_id embed_text cv_id cv candidate_id).
         MNone \<notin> snd ` set (stored_metadata s))
   \<and> map stored_metadata (ingest_one embed_text cv_id cv)
       = map (\<lambda>c. clean_metadata (metadata c)) (chunk cv_id cv)
   \<and> map fst (clean_metadata m) = map fst m
   \<and> map_of (clean_metadata m) k
       = map_option (\<lambda>v. if v = MNone then MStr [] else v) (map_of m k)"
proof (intro conjI)
  show "\<forall>s\<in>set (ingest_one embed_text cv_id cv). MNone \<notin> snd ` set (stored_metadata s)"
  proof
    fix s assume "s \<in> set (ingest_one embed_text cv_id cv)"
    then have "s \<in> (\<lambda>c. \<lparr>stored_id = chunk_id c, stored_document = chunk_text c,
               stored_embedding = embed_text (chunk_text c),
               stored_metadata = clean_metadata (metadata c)\<rparr>) ` set (chunk cv_id cv)"
      unfolding ingest_one_def set_map .
    then obtain c :: chunk_rec where "s = \<lparr>stored_id = chunk_id c, stored_document = chunk_text c,
               stored_embedding = embed_text (chunk_text c),
               stored_metadata = clean_metadata (metadata c)\<rparr>" ..
    then have "stored_metadata s = clean_metadata (metadata c)" by simp
    then show "MNone \<notin> snd ` set (stored_metadata s)"
      by (simp only: clean_metadata_no_null not_False_eq_True)
  qed
  show "\<forall>s\<in>set (ingest_with_candidate_id embed_text cv_id cv candidate_id).
         MNone \<notin> snd ` set (stored_metadata s)"
  proof
    fix s assume "s \<in> set (ingest_with_candidate_id embed_text cv_id cv candidate_id)"
    then have "s \<in> (\<lambda>c. \<lparr>stored_id = chunk_id c, stored_document = chunk_text c,
               stored_embedding = embed_text (chunk_text c),
               stored_metadata =
                 clean_metadata (AList.update ''candidate_id'' (MInt candidate_id) (metadata c))\<rparr>)
             ` set (chunk cv_id cv)"
      unfolding ingest_with_candidate_id_def set_map .
    then obtain c :: chunk_rec where "s = \<lparr>stored_id = chunk_id c, stored_document = chunk_text c,
               stored_embedding = embed_text (chunk_text c),
               stored_metadata =
                 clean_metadata (AList.update ''candidate_id'' (MInt candidate_id) (metadata c))\<rparr>" ..
    then have "stored_metadata s
                 = clean_metadata (AList.update ''candidate_id'' (MInt candidate_id) (metadata c))"
      by simp
    then show "MNone \<notin> snd ` set (stored_metadata s)"
      by (simp only: clean_metadata_no_null not_False_eq_True)
  qed
  show "map stored_metadata (ingest_one embed_text cv_id cv)
       = map (\<lambda>c. clean_metadata (metadata c)) (chunk cv_id cv)"
    by (simp add: ingest_one_def o_def)
  show "map fst (clean_metadata m) = map fst m"
    by (simp add: clean_metadata_def o_def case_prod_beta)
  show "map_of (clean_metadata m) k
       = map_option (\<lambda>v. if v = MNone then MStr [] else v) (map_of m k)"
    by (rule clean_metadata_lookup)
qed

text \<open>The sample record: the absent name is stored as the empty string.\<close>

theorem stored_metadata_no_null_witness:
  "ingest_one (\<lambda>t. ()) uuid_1 sample_cv \<noteq> []
   \<and> list_all (\<lambda>s. MNone \<notin> snd ` set (stored_metadata s)) (ingest_one (\<lambda>t. ()) uuid_1 sample_cv)
   \<and> ingest_with_candidate_id (\<lambda>t. ()) uuid_1 sample_cv 7 \<noteq> []
   \<and> list_all (\<lambda>s. MNone \<notin> snd ` set (stored_metadata s))
        (ingest_with_candidate_id (\<lambda>t. ()) uuid_1 sample_cv 7)
   \<and> map_of (metadata (chunk uuid_1 sample_cv ! 0)) ''name'' = Some MNone
   \<and> map_of (clean_metadata (metadata (chunk uuid_1 sample_cv ! 0))) ''name'' = Some (MStr [])"
proof -
  have "map chunk_id (chunk uuid_1 sample_cv) \<noteq> []" by (simp add: sample_chunk_ids)
  then have ne: "chunk uuid_1 sample_cv \<noteq> []" by auto
  have ne1: "ingest_one (\<lambda>t. ()) uuid_1 sample_cv \<noteq> []"
    using ne by (simp add: ingest_one_def)
  have ne2: "ingest_with_candidate_id (\<lambda>t. ()) uuid_1 sample_cv 7 \<noteq> []"
    using ne by (simp add: ingest_with_candidate_id_def)
  have n: "map_of (metadata (chunk uuid_1 sample_cv ! 0)) ''name'' = Some MNone"
    unfolding sample_chunk_metadata by simp
  note t = stored_metadata_no_null[of "\<lambda>t. ()" uuid_1 sample_cv 7
             "metadata (chunk uuid_1 sample_cv ! 0)" "''name''"]
  from t have a1: "list_all (\<lambda>s. MNone \<notin> snd ` set (stored_metadata s))
                     (ingest_one (\<lambda>t. ()) uuid_1 sample_cv)"
    unfolding list_all_iff by (rule conjunct1)
  from t have a2: "list_all (\<lambda>s. MNone \<notin> snd ` set (stored_metadata s))
                     (ingest_with_candidate_id (\<lambda>t. ()) uuid_1 sample_cv 7)"
    unfolding list_all_iff by (rule conjunct2[THEN conjunct1])
  from t have "map_of (clean_metadata (metadata (chunk uuid_1 sample_cv ! 0))) ''name''
       = map_option (\<lambda>v. if v = MNone then MStr [] else v)
           (map_of (metadata (chunk uuid_1 sample_cv ! 0)) ''name'')"
    by (rule conjunct2[THEN conjunct2, THEN conjunct2, THEN conjunct2])
  then have a3: "map_of (clean_metadata (metadata (chunk uuid_1 sample_cv ! 0))) ''name'' = Some (MStr [])"
    unfolding n by simp
  from ne1 a1 ne2 a2 n a3 show ?thesis by (intro conjI)
qed

end
